theory Spec2Isabelle
  imports Main "HOL-Library.Multiset"
begin

section \<open>Strings\<close>

text \<open>
  A Python \<open>str\<close> is a sequence of Unicode code points, so a string of the program
  is a list of code points (natural numbers); \<open>py\<close> reads an ASCII literal.
  The Unicode character database and the calendar are not part of the repository: the
  classification of the code points beyond ASCII and the date of a day are parameters of
  the model (\<open>platform\<close>), and every result below holds whatever they are. The ASCII
  range is written out.
\<close>

type_synonym pystr = "nat list"

abbreviation ord :: "char \<Rightarrow> nat" where
  "ord \<equiv> of_char"

definition py :: "string \<Rightarrow> pystr" where
  "py s = map ord s"

record platform =
  uni_alnum :: "nat \<Rightarrow> bool"
  uni_decimal :: "nat \<Rightarrow> nat option"
  uni_space :: "nat \<Rightarrow> bool"
  calendar :: "nat \<Rightarrow> nat \<times> nat \<times> nat"

text \<open>\<open>str.isalnum\<close> on one character.\<close>

definition isalnum :: "platform \<Rightarrow> nat \<Rightarrow> bool" where
  "isalnum P c =
     (if c < 128 then (48 \<le> c \<and> c \<le> 57) \<or> (65 \<le> c \<and> c \<le> 90) \<or> (97 \<le> c \<and> c \<le> 122)
      else uni_alnum P c)"

text \<open>\<open>str.replace(old, new)\<close> where \<open>old\<close> is a single character, as in both calls
  of the source.\<close>

definition replace1 :: "nat \<Rightarrow> pystr \<Rightarrow> pystr \<Rightarrow> pystr" where
  "replace1 old new text = concat (map (\<lambda>c. if c = old then new else [c]) text)"

text \<open>
  \<^verbatim>\<open>
  def format_filename(text):
      formatted = text.replace(' ', '_').replace('&', 'and')
      formatted = ''.join(c for c in formatted if c.isalnum() or c == '_')
      return formatted
  \<close>
\<close>

definition format_filename :: "platform \<Rightarrow> pystr \<Rightarrow> pystr" where
  "format_filename P text =
     (let formatted = replace1 (ord CHR ''&'') (py ''and'') (replace1 (ord CHR '' '') (py ''_'') text)
      in filter (\<lambda>c. isalnum P c \<or> c = ord CHR ''_'') formatted)"

section \<open>The Python library functions the program calls\<close>

subsection \<open>\<open>str.split\<close>, \<open>int\<close>, \<open>str\<close>\<close>

text \<open>
  \<open>s.split(sep)\<close> scans from the left and cuts at every occurrence of \<open>sep\<close> that
  does not overlap the one before. Python raises \<open>ValueError\<close> for an empty separator;
  both separators of the source are constants that are not empty.
\<close>

function split_from :: "pystr \<Rightarrow> pystr \<Rightarrow> pystr \<Rightarrow> pystr list" where
  "split_from sep cur s =
     (case s of
        [] \<Rightarrow> [cur]
      | c # cs \<Rightarrow>
          if sep \<noteq> [] \<and> take (length sep) s = sep
          then cur # split_from sep [] (drop (length sep) s)
          else split_from sep (cur @ [c]) cs)"
  by pat_completeness auto
termination
  by (relation "measure (\<lambda>(sep, cur, s). length s)") auto

declare split_from.simps [simp del]

definition py_split :: "pystr \<Rightarrow> pystr \<Rightarrow> pystr list" where
  "py_split sep s = split_from sep [] s"

text \<open>
  \<open>int(s)\<close> in base ten: white space is stripped at both ends, one sign may lead, and the
  digits may be grouped by single underscores. Decimal digits and white space beyond ASCII
  are those of the platform's Unicode tables. \<open>None\<close> is the \<open>ValueError\<close>.
\<close>

definition isspace :: "platform \<Rightarrow> nat \<Rightarrow> bool" where
  "isspace P c =
     (if c < 128 then (9 \<le> c \<and> c \<le> 13) \<or> (28 \<le> c \<and> c \<le> 32) else uni_space P c)"

definition digit_value :: "platform \<Rightarrow> nat \<Rightarrow> nat option" where
  "digit_value P c =
     (if c < 128 then (if 48 \<le> c \<and> c \<le> 57 then Some (c - 48) else None) else uni_decimal P c)"

definition py_strip :: "platform \<Rightarrow> pystr \<Rightarrow> pystr" where
  "py_strip P s = rev (dropWhile (isspace P) (rev (dropWhile (isspace P) s)))"

fun more_digits :: "platform \<Rightarrow> nat \<Rightarrow> pystr \<Rightarrow> nat option" where
  "more_digits P acc [] = Some acc"
| "more_digits P acc [c] =
     (case digit_value P c of None \<Rightarrow> None | Some v \<Rightarrow> Some (10 * acc + v))"
| "more_digits P acc (c # d # ds) =
     (if c = ord CHR ''_''
      then (case digit_value P d of None \<Rightarrow> None | Some v \<Rightarrow> more_digits P (10 * acc + v) ds)
      else (case digit_value P c of None \<Rightarrow> None | Some v \<Rightarrow> more_digits P (10 * acc + v) (d # ds)))"

definition digits :: "platform \<Rightarrow> pystr \<Rightarrow> nat option" where
  "digits P s =
     (case s of
        [] \<Rightarrow> None
      | c # cs \<Rightarrow> (case digit_value P c of None \<Rightarrow> None | Some v \<Rightarrow> more_digits P v cs))"

definition py_int :: "platform \<Rightarrow> pystr \<Rightarrow> int option" where
  "py_int P s =
     (case py_strip P s of
        [] \<Rightarrow> None
      | c # cs \<Rightarrow>
          if c = ord CHR ''-'' then map_option (\<lambda>n. - int n) (digits P cs)
          else if c = ord CHR ''+'' then map_option int (digits P cs)
          else map_option int (digits P (c # cs)))"

text \<open>\<open>str(n)\<close>, as an f-string formats a page number.\<close>

function str_nat :: "nat \<Rightarrow> pystr" where
  "str_nat n = (if n < 10 then [48 + n] else str_nat (n div 10) @ [48 + n mod 10])"
  by pat_completeness auto
termination
  by (relation "measure id") auto

declare str_nat.simps [simp del]

subsection \<open>Paths and patterns\<close>

text \<open>
  \<open>os.path\<close> as \<open>posixpath\<close> has it, and \<open>fnmatch\<close> comparing case-sensitively,
  for the wildcards \<open>*\<close> and \<open>?\<close>. Every pattern of the source is built from sanitized
  names (alphanumerics and underscores), constant text and one \<open>*\<close>, so no bracket
  expression occurs.
\<close>

abbreviation slash :: nat where
  "slash \<equiv> ord CHR ''/''"

definition path_join :: "pystr \<Rightarrow> pystr \<Rightarrow> pystr" where
  "path_join a b =
     (if b \<noteq> [] \<and> hd b = slash then b
      else if a = [] \<or> last a = slash then a @ b
      else a @ [slash] @ b)"

definition basename :: "pystr \<Rightarrow> pystr" where
  "basename p = rev (takeWhile (\<lambda>c. c \<noteq> slash) (rev p))"

definition dirname :: "pystr \<Rightarrow> pystr" where
  "dirname p =
     (let head = rev (dropWhile (\<lambda>c. c \<noteq> slash) (rev p))
      in if filter (\<lambda>c. c \<noteq> slash) head = [] then head
         else rev (dropWhile (\<lambda>c. c = slash) (rev head)))"

fun fnmatch :: "pystr \<Rightarrow> pystr \<Rightarrow> bool" where
  "fnmatch n [] = (n = [])"
| "fnmatch [] (p # ps) = (p = ord CHR ''*'' \<and> fnmatch [] ps)"
| "fnmatch (c # cs) (p # ps) =
     (if p = ord CHR ''*'' then fnmatch (c # cs) ps \<or> fnmatch cs (p # ps)
      else (p = ord CHR ''?'' \<or> p = c) \<and> fnmatch cs ps)"


subsection \<open>\<open>list.sort\<close>\<close>

text \<open>
  \<open>xs.sort(key=k, reverse=r)\<close> computes the key of every element first (an exception of
  the key function leaves the call, \<open>None\<close> here), then sorts stably; with
  \<open>reverse=True\<close> the order is descending and elements of equal keys still keep their
  order.
\<close>

definition py_sort :: "('a \<Rightarrow> 'k::linorder option) \<Rightarrow> bool \<Rightarrow> 'a list \<Rightarrow> 'a list option" where
  "py_sort key reverse xs =
     (case those (map key xs) of
        None \<Rightarrow> None
      | Some ks \<Rightarrow>
          Some (map snd (if reverse then rev (sort_key fst (rev (zip ks xs)))
                         else sort_key fst (zip ks xs))))"

section \<open>Tables and the file system\<close>

text \<open>
  pandas is an external library. A table is its column names and its rows, a row giving
  the cells it has (a column it lacks is the empty cell); \<open>pd.concat\<close> with
  \<open>ignore_index=True\<close> appends the rows and unites the columns in order of first
  appearance. \<open>df.empty\<close> holds when either axis has length zero.
\<close>

type_synonym row = "(pystr \<times> pystr) list"

record dataframe =
  columns :: "pystr list"
  rows :: "row list"

definition DataFrame :: dataframe where
  "DataFrame = \<lparr>columns = [], rows = []\<rparr>"

definition pd_concat :: "dataframe \<Rightarrow> dataframe \<Rightarrow> dataframe" where
  "pd_concat a b =
     \<lparr>columns = columns a @ filter (\<lambda>c. c \<notin> set (columns a)) (columns b),
      rows = rows a @ rows b\<rparr>"

definition df_empty :: "dataframe \<Rightarrow> bool" where
  "df_empty d = (columns d = [] \<or> rows d = [])"

text \<open>
  The file system is the list of its paths in the order a directory listing gives them.
  What a path holds is a directory, a file \<open>pd.read_csv\<close> fails on, or a file it reads as
  a table (\<open>on_bad_lines='skip'\<close> is part of that reading); \<open>to_csv\<close> writes a file
  that reads back as the table written. Paths are compared as strings, so the download
  directory is given without a trailing separator, as \<open>main\<close> gives it.
\<close>

datatype content = Directory | Unreadable | Table dataframe

record node =
  mtime :: nat
  body :: content

type_synonym filesystem = "(pystr \<times> node) list"

datatype selenium_error = TimeoutException | NoSuchElementException | WebDriverException

datatype py_error =
    ValueError
  | FileNotFoundError
  | NotADirectoryError
  | IsADirectoryError
  | ParserError
  | Selenium selenium_error

definition path_exists :: "filesystem \<Rightarrow> pystr \<Rightarrow> bool" where
  "path_exists fs p = (map_of fs p \<noteq> None)"

definition isdir :: "filesystem \<Rightarrow> pystr \<Rightarrow> bool" where
  "isdir fs p = (case map_of fs p of None \<Rightarrow> False | Some n \<Rightarrow> body n = Directory)"

definition getmtime :: "filesystem \<Rightarrow> pystr \<Rightarrow> nat option" where
  "getmtime fs p = map_option mtime (map_of fs p)"

fun put :: "pystr \<Rightarrow> node \<Rightarrow> filesystem \<Rightarrow> filesystem" where
  "put p n [] = [(p, n)]"
| "put p n ((q, m) # fs) = (if q = p then (p, n) # fs else (q, m) # put p n fs)"

definition child_name :: "pystr \<Rightarrow> pystr \<Rightarrow> pystr option" where
  "child_name d p =
     (let name = drop (Suc (length d)) p
      in if take (Suc (length d)) p = d @ [slash] \<and> name \<noteq> [] \<and> slash \<notin> set name
         then Some name else None)"

definition listdir :: "filesystem \<Rightarrow> pystr \<Rightarrow> pystr list" where
  "listdir fs d = (if isdir fs d then List.map_filter (\<lambda>(p, n). child_name d p) fs else [])"

text \<open>
  \<open>glob.glob(pathname)\<close> where only the last component holds a wildcard: the entries of
  the directory whose names match, hidden names left out unless the pattern is hidden; a
  directory that cannot be listed gives no match.
\<close>

definition ishidden :: "pystr \<Rightarrow> bool" where
  "ishidden s = (s \<noteq> [] \<and> hd s = ord CHR ''.'')"

definition glob :: "filesystem \<Rightarrow> pystr \<Rightarrow> pystr list" where
  "glob fs pathname =
     (let d = dirname pathname; pattern = basename pathname
      in map (path_join d)
           (filter (\<lambda>name. fnmatch name pattern \<and> (ishidden pattern \<or> \<not> ishidden name))
              (listdir fs d)))"

definition read_csv :: "filesystem \<Rightarrow> pystr \<Rightarrow> py_error + dataframe" where
  "read_csv fs p =
     (case map_of fs p of
        None \<Rightarrow> Inl FileNotFoundError
      | Some n \<Rightarrow>
          (case body n of
             Directory \<Rightarrow> Inl IsADirectoryError
           | Unreadable \<Rightarrow> Inl ParserError
           | Table df \<Rightarrow> Inr df))"

definition to_csv :: "nat \<Rightarrow> dataframe \<Rightarrow> pystr \<Rightarrow> filesystem \<Rightarrow> py_error + filesystem" where
  "to_csv t df p fs =
     (if isdir fs p then Inl IsADirectoryError
      else if \<not> isdir fs (dirname p) then Inl FileNotFoundError
      else Inr (put p \<lparr>mtime = t, body = Table df\<rparr> fs))"

text \<open>
  \<open>os.rename\<close> replaces a file at the destination. The program renames the files it has
  downloaded; for a directory at either end the model reports the error of renaming
  onto a directory.
\<close>

definition os_rename :: "pystr \<Rightarrow> pystr \<Rightarrow> filesystem \<Rightarrow> py_error + filesystem" where
  "os_rename src dst fs =
     (case map_of fs src of
        None \<Rightarrow> Inl FileNotFoundError
      | Some n \<Rightarrow>
          if src = dst then Inr fs
          else if body n = Directory \<or> isdir fs dst then Inl IsADirectoryError
          else if \<not> isdir fs (dirname dst) then Inl FileNotFoundError
          else Inr (put dst n (filter (\<lambda>(q, m). q \<noteq> src) fs)))"

text \<open>\<open>os.makedirs\<close>: the directory and every ancestor that is missing.\<close>

definition ancestors :: "pystr \<Rightarrow> pystr list" where
  "ancestors p = map (\<lambda>i. take i p) (filter (\<lambda>i. p ! i = slash) [1..<length p]) @ [p]"

definition os_makedirs :: "nat \<Rightarrow> pystr \<Rightarrow> filesystem \<Rightarrow> py_error + filesystem" where
  "os_makedirs t p fs =
     (if list_ex (\<lambda>a. path_exists fs a \<and> \<not> isdir fs a) (ancestors p) then Inl NotADirectoryError
      else Inr (fold (\<lambda>a fs. if path_exists fs a then fs else fs @ [(a, \<lparr>mtime = t, body = Directory\<rparr>)])
                  (ancestors p) fs))"


section \<open>The state of a run\<close>

text \<open>
  The program acts on the download directory, reads the wall clock, drives the browser
  and prints. The state of a run is the file system, the clock (local time, in seconds),
  the calls made to the driver so far, and the lines printed so far. A step of the
  program returns its value or the exception it raises, and the state it leaves.
\<close>

datatype element =
    CategoryTab | NatureOfBusiness | LocationTab | StateName
  | FrmSubmit | ExportToCsv | ImgButNext | DropdownToggle

datatype call =
    Get
  | UntilClickable element
  | Click element
  | FindSelect element
  | SelectByVisibleText element pystr
  | UntilFileExists
  | ScrollIntoView element
  | UntilVisible element
  | ScriptClick element
  | UntilStale element
  | Quit

datatype line =
    Renamed pystr
  | NoFileToRename
  | Moved pystr pystr
  | ErrorMoving pystr py_error
  | ErrorProcessing pystr py_error
  | CreatedCombined pystr
  | NoDataToCombine pystr
  | NoFolders pystr
  | FoundFolders nat pystr
  | ProcessingFolder pystr
  | Processed pystr
  | CreatedConsolidated pystr
  | NoDataToConsolidate pystr
  | NavigationEnded py_error
  | ErrorInDownload py_error
  | ProcessingFiltered pystr
  | Skipping
  | Completed pystr "pystr option"
  | ErrorQuery pystr "pystr option" py_error
  | Consolidating pystr
  | ProcessingUnfiltered pystr
  | AllCompleted
  | MainError py_error
  | Prompt

record world =
  files :: filesystem
  clock :: nat
  calls :: "call list"
  printed :: "line list"

type_synonym 'a action = "world \<Rightarrow> (py_error + 'a) \<times> world"

definition ok :: "'a \<Rightarrow> 'a action" where
  "ok x w = (Inr x, w)"

definition raise :: "py_error \<Rightarrow> 'a action" where
  "raise e w = (Inl e, w)"

definition and_then :: "'a action \<Rightarrow> ('a \<Rightarrow> 'b action) \<Rightarrow> 'b action" where
  "and_then m f w = (case m w of (Inl e, w1) \<Rightarrow> (Inl e, w1) | (Inr x, w1) \<Rightarrow> f x w1)"

definition try_except :: "'a action \<Rightarrow> (py_error \<Rightarrow> 'a action) \<Rightarrow> 'a action" where
  "try_except m handler w = (case m w of (Inl e, w1) \<Rightarrow> handler e w1 | (Inr x, w1) \<Rightarrow> (Inr x, w1))"

definition say :: "line \<Rightarrow> world \<Rightarrow> world" where
  "say l w = w\<lparr>printed := printed w @ [l]\<rparr>"

definition safe_print :: "line \<Rightarrow> unit action" where
  "safe_print l w = (Inr (), say l w)"

definition sleep :: "nat \<Rightarrow> unit action" where
  "sleep n w = (Inr (), w\<lparr>clock := clock w + n\<rparr>)"

text \<open>\<open>if business_type:\<close> takes the other branch for \<open>None\<close> and for the empty string.\<close>

definition if_business :: "pystr option \<Rightarrow> (pystr \<Rightarrow> 'a) \<Rightarrow> 'a \<Rightarrow> 'a" where
  "if_business business_type yes no =
     (case business_type of None \<Rightarrow> no | Some b \<Rightarrow> if b = [] then no else yes b)"

section \<open>File naming and layout\<close>

text \<open>
  \<open>datetime.now().strftime('%Y%m%d%H%M%S')\<close> on the clock reading \<open>t\<close>, local time in
  seconds: year, month and day of the day \<open>t div 86400\<close>, which the platform's calendar
  gives, then hour, minute and second of the day, every field in decimal digits padded
  with zeros.
\<close>

definition two_digits :: "nat \<Rightarrow> pystr" where
  "two_digits n = [48 + n div 10, 48 + n mod 10]"

definition four_digits :: "nat \<Rightarrow> pystr" where
  "four_digits n = [48 + n div 1000, 48 + n div 100 mod 10, 48 + n div 10 mod 10, 48 + n mod 10]"

definition strftime :: "platform \<Rightarrow> nat \<Rightarrow> pystr" where
  "strftime P t =
     (case calendar P (t div 86400) of
        (year, month, day) \<Rightarrow>
          four_digits year @ two_digits month @ two_digits day
            @ two_digits (t mod 86400 div 3600) @ two_digits (t mod 3600 div 60)
            @ two_digits (t mod 60))"

text \<open>
  \<^verbatim>\<open>
  def create_directory(path):
      if not os.path.exists(path):
          os.makedirs(path)
  \<close>
\<close>

definition create_directory :: "pystr \<Rightarrow> unit action" where
  "create_directory path w =
     (if \<not> path_exists (files w) path
      then (case os_makedirs (clock w) path (files w) of
              Inl e \<Rightarrow> (Inl e, w)
            | Inr fs \<Rightarrow> (Inr (), w\<lparr>files := fs\<rparr>))
      else (Inr (), w))"

text \<open>
  \<^verbatim>\<open>
  def rename_downloaded_file(download_directory, state_name, business_type=None, page_number=None):
      downloaded_file_path = os.path.join(download_directory, 'data.csv')
      if os.path.exists(downloaded_file_path):
          state_formatted = format_filename(state_name)
          timestamp = datetime.now().strftime('%Y%m%d%H%M%S')
          if business_type:
              business_formatted = format_filename(business_type)
              new_filename = f"{state_formatted}_{business_formatted}_page_{page_number}.csv"
          else:
              new_filename = f"{state_formatted}_{timestamp}.csv"
          new_file_path = os.path.join(download_directory, new_filename)
          os.rename(downloaded_file_path, new_file_path)
          safe_print(f"Renamed downloaded file to: {new_filename}")
          return new_file_path
      else:
          safe_print("No file found to rename.")
          return None
  \<close>
  The one call of the source passes the page number, a positive integer.
\<close>

definition rename_downloaded_file ::
  "platform \<Rightarrow> pystr \<Rightarrow> pystr \<Rightarrow> pystr option \<Rightarrow> nat \<Rightarrow> pystr option action" where
  "rename_downloaded_file P download_directory state_name business_type page_number w =
     (let downloaded_file_path = path_join download_directory (py ''data.csv'')
      in if path_exists (files w) downloaded_file_path
         then
           let state_formatted = format_filename P state_name;
               timestamp = strftime P (clock w);
               new_filename =
                 if_business business_type
                   (\<lambda>b. state_formatted @ py ''_'' @ format_filename P b @ py ''_page_''
                          @ str_nat page_number @ py ''.csv'')
                   (state_formatted @ py ''_'' @ timestamp @ py ''.csv'');
               new_file_path = path_join download_directory new_filename
           in (case os_rename downloaded_file_path new_file_path (files w) of
                 Inl e \<Rightarrow> (Inl e, w)
               | Inr fs \<Rightarrow> (Inr (Some new_file_path), say (Renamed new_filename) (w\<lparr>files := fs\<rparr>)))
         else (Inr None, say NoFileToRename w))"

text \<open>
  \<^verbatim>\<open>
  def move_files_to_directory(download_directory, state_name, business_type=None):
      state_formatted = format_filename(state_name)
      if business_type:
          business_formatted = format_filename(business_type)
          target_directory = os.path.join(download_directory, f"{state_formatted}_{business_formatted}")
          file_pattern = f"{state_formatted}_{business_formatted}_page_*.csv"
      else:
          target_directory = os.path.join(download_directory, state_formatted)
          file_pattern = f"{state_formatted}_*.csv"
      create_directory(target_directory)
      csv_files = glob.glob(os.path.join(download_directory, file_pattern))
      for file_path in csv_files:
          try:
              destination_path = os.path.join(target_directory, os.path.basename(file_path))
              os.rename(file_path, destination_path)
              safe_print(f"Moved file to {target_directory}: {os.path.basename(file_path)}")
          except Exception as e:
              safe_print(f"Error moving file {file_path}: {e}")
  \<close>
\<close>

fun move_each :: "pystr \<Rightarrow> pystr list \<Rightarrow> world \<Rightarrow> world" where
  "move_each target_directory [] w = w"
| "move_each target_directory (file_path # csv_files) w =
     (let destination_path = path_join target_directory (basename file_path)
      in case os_rename file_path destination_path (files w) of
           Inr fs \<Rightarrow>
             move_each target_directory csv_files
               (say (Moved target_directory (basename file_path)) (w\<lparr>files := fs\<rparr>))
         | Inl e \<Rightarrow> move_each target_directory csv_files (say (ErrorMoving file_path e) w))"

definition move_files_to_directory :: "platform \<Rightarrow> pystr \<Rightarrow> pystr \<Rightarrow> pystr option \<Rightarrow> unit action" where
  "move_files_to_directory P download_directory state_name business_type =
     (let state_formatted = format_filename P state_name;
          (target_directory, file_pattern) =
            if_business business_type
              (\<lambda>b. (path_join download_directory (state_formatted @ py ''_'' @ format_filename P b),
                     state_formatted @ py ''_'' @ format_filename P b @ py ''_page_*.csv''))
              (path_join download_directory state_formatted, state_formatted @ py ''_*.csv'')
      in and_then (create_directory target_directory)
           (\<lambda>_ w. (Inr (),
              move_each target_directory
                (glob (files w) (path_join download_directory file_pattern)) w)))"


section \<open>The consolidation pipeline\<close>

text \<open>
  The sort key of page-combine for a business type,
  \<^verbatim>\<open>int(x.split('page_')[-1].split('.')[0])\<close>, on the whole path \<open>x\<close>: a
  \<open>ValueError\<close> of \<open>int\<close> is \<open>None\<close>.
\<close>

definition page_key :: "platform \<Rightarrow> pystr \<Rightarrow> int option" where
  "page_key P x = py_int P (hd (py_split (py ''.'') (last (py_split (py ''page_'') x))))"

text \<open>
  \<^verbatim>\<open>
      combined_df = pd.DataFrame()
      for file_path in csv_files:
          try:
              df = pd.read_csv(file_path, encoding='utf-8', on_bad_lines='skip')
              combined_df = pd.concat([combined_df, df], ignore_index=True)
          except Exception as e:
              safe_print(f"Error processing {file_path}: {e}")
  \<close>
\<close>

fun read_each :: "pystr list \<Rightarrow> dataframe \<times> world \<Rightarrow> dataframe \<times> world" where
  "read_each [] (combined_df, w) = (combined_df, w)"
| "read_each (file_path # csv_files) (combined_df, w) =
     (case read_csv (files w) file_path of
        Inr df \<Rightarrow> read_each csv_files (pd_concat combined_df df, w)
      | Inl e \<Rightarrow> read_each csv_files (combined_df, say (ErrorProcessing file_path e) w))"

text \<open>
  \<^verbatim>\<open>
  def combine_csv_files(download_directory, state_name, business_type=None):
      state_formatted = format_filename(state_name)
      if business_type:
          business_formatted = format_filename(business_type)
          directory_path = os.path.join(download_directory, f"{state_formatted}_{business_formatted}")
          file_pattern = f"{state_formatted}_{business_formatted}_page_*.csv"
          output_filename = f"{state_formatted}_{business_formatted}_combined.csv"
      else:
          directory_path = os.path.join(download_directory, state_formatted)
          file_pattern = f"{state_formatted}_*.csv"
          output_filename = f"{state_formatted}_combined.csv"
      csv_files = glob.glob(os.path.join(directory_path, file_pattern))
      if business_type:
          csv_files.sort(key=lambda x: int(x.split('page_')[-1].split('.')[0]))
      else:
          csv_files.sort(key=os.path.getmtime, reverse=True)
      combined_df = ...   (the loop above)
      if not combined_df.empty:
          combined_file_path = os.path.join(directory_path, output_filename)
          combined_df.to_csv(combined_file_path, index=False, encoding='utf-8')
          safe_print(f"Created combined CSV file: {combined_file_path}")
      else:
          safe_print(f"No data to combine for {output_filename}")
  \<close>
  \<open>combine_layout\<close> is the first \<open>if\<close>, \<open>combine_order\<close> the list \<open>csv_files\<close> after the
  second.
\<close>

definition combine_layout :: "platform \<Rightarrow> pystr \<Rightarrow> pystr \<Rightarrow> pystr option \<Rightarrow> pystr \<times> pystr \<times> pystr" where
  "combine_layout P download_directory state_name business_type =
     (let state_formatted = format_filename P state_name
      in if_business business_type
           (\<lambda>b. (path_join download_directory (state_formatted @ py ''_'' @ format_filename P b),
                  state_formatted @ py ''_'' @ format_filename P b @ py ''_page_*.csv'',
                  state_formatted @ py ''_'' @ format_filename P b @ py ''_combined.csv''))
           (path_join download_directory state_formatted,
            state_formatted @ py ''_*.csv'',
            state_formatted @ py ''_combined.csv''))"

definition combine_order ::
  "platform \<Rightarrow> pystr \<Rightarrow> pystr \<Rightarrow> pystr option \<Rightarrow> filesystem \<Rightarrow> py_error + pystr list" where
  "combine_order P download_directory state_name business_type fs =
     (let (directory_path, file_pattern, output_filename) =
            combine_layout P download_directory state_name business_type;
          csv_files = glob fs (path_join directory_path file_pattern)
      in if_business business_type
           (\<lambda>b. case py_sort (page_key P) False csv_files of
                   None \<Rightarrow> Inl ValueError | Some sorted_files \<Rightarrow> Inr sorted_files)
           (case py_sort (getmtime fs) True csv_files of
              None \<Rightarrow> Inl FileNotFoundError | Some sorted_files \<Rightarrow> Inr sorted_files))"

definition combine_csv_files :: "platform \<Rightarrow> pystr \<Rightarrow> pystr \<Rightarrow> pystr option \<Rightarrow> unit action" where
  "combine_csv_files P download_directory state_name business_type w =
     (let (directory_path, file_pattern, output_filename) =
            combine_layout P download_directory state_name business_type
      in case combine_order P download_directory state_name business_type (files w) of
           Inl e \<Rightarrow> (Inl e, w)
         | Inr csv_files \<Rightarrow>
             let (combined_df, w1) = read_each csv_files (DataFrame, w)
             in if \<not> df_empty combined_df
                then
                  let combined_file_path = path_join directory_path output_filename
                  in (case to_csv (clock w1) combined_df combined_file_path (files w1) of
                        Inl e \<Rightarrow> (Inl e, w1)
                      | Inr fs \<Rightarrow> (Inr (), say (CreatedCombined combined_file_path) (w1\<lparr>files := fs\<rparr>)))
                else (Inr (), say (NoDataToCombine output_filename) w1))"

text \<open>
  \<^verbatim>\<open>
  def consolidate_state_files(download_directory, state_name):
      state_formatted = format_filename(state_name)
      combined_df = pd.DataFrame()
      state_directory_pattern = os.path.join(download_directory, f"{state_formatted}_*")
      business_type_folders = glob.glob(state_directory_pattern)
      if not business_type_folders:
          safe_print(f"No business type folders found for state: {state_formatted}")
          return
      safe_print(f"Found {len(business_type_folders)} folders for state: {state_formatted}")
      for folder in business_type_folders:
          safe_print(f"Processing folder: {folder}")
          combined_files = glob.glob(os.path.join(folder, "*_combined.csv"))
          for file_path in combined_files:
              try:
                  df = pd.read_csv(file_path, encoding='utf-8', on_bad_lines='skip')
                  combined_df = pd.concat([combined_df, df], ignore_index=True)
                  safe_print(f"Processed: {file_path}")
              except Exception as e:
                  safe_print(f"Error processing {file_path}: {e}")
      if not combined_df.empty:
          consolidated_file_path = os.path.join(download_directory, f"{state_formatted}_consolidated.csv")
          combined_df.to_csv(consolidated_file_path, index=False, encoding='utf-8')
          safe_print(f"Created consolidated CSV file: {consolidated_file_path}")
      else:
          safe_print(f"No data to consolidate for state: {state_formatted}")
  \<close>
\<close>

fun read_combined :: "pystr list \<Rightarrow> dataframe \<times> world \<Rightarrow> dataframe \<times> world" where
  "read_combined [] (combined_df, w) = (combined_df, w)"
| "read_combined (file_path # combined_files) (combined_df, w) =
     (case read_csv (files w) file_path of
        Inr df \<Rightarrow> read_combined combined_files (pd_concat combined_df df, say (Processed file_path) w)
      | Inl e \<Rightarrow> read_combined combined_files (combined_df, say (ErrorProcessing file_path e) w))"

fun read_folders :: "pystr list \<Rightarrow> dataframe \<times> world \<Rightarrow> dataframe \<times> world" where
  "read_folders [] (combined_df, w) = (combined_df, w)"
| "read_folders (folder # business_type_folders) (combined_df, w) =
     (let w1 = say (ProcessingFolder folder) w;
          combined_files = glob (files w1) (path_join folder (py ''*_combined.csv''))
      in read_folders business_type_folders (read_combined combined_files (combined_df, w1)))"

definition consolidate_state_files :: "platform \<Rightarrow> pystr \<Rightarrow> pystr \<Rightarrow> unit action" where
  "consolidate_state_files P download_directory state_name w =
     (let state_formatted = format_filename P state_name;
          state_directory_pattern = path_join download_directory (state_formatted @ py ''_*'');
          business_type_folders = glob (files w) state_directory_pattern
      in if business_type_folders = [] then (Inr (), say (NoFolders state_formatted) w)
         else
           let w1 = say (FoundFolders (length business_type_folders) state_formatted) w;
               (combined_df, w2) = read_folders business_type_folders (DataFrame, w1)
           in if \<not> df_empty combined_df
              then
                let consolidated_file_path =
                      path_join download_directory (state_formatted @ py ''_consolidated.csv'')
                in (case to_csv (clock w2) combined_df consolidated_file_path (files w2) of
                      Inl e \<Rightarrow> (Inl e, w2)
                    | Inr fs \<Rightarrow>
                        (Inr (), say (CreatedConsolidated consolidated_file_path) (w2\<lparr>files := fs\<rparr>)))
              else (Inr (), say (NoDataToConsolidate state_formatted) w2))"


section \<open>The export session\<close>

text \<open>
  The browser and the portal are the environment of the program. The \<open>n\<close>-th call
  to the driver is answered by \<open>env n\<close>: the exception the call raises, if any, the
  time it took, and what the browser has meanwhile saved as \<open>data.csv\<close> in the download
  directory, if anything (a browser does not overwrite a \<open>data.csv\<close> that is there).
\<close>

record reply =
  raises :: "selenium_error option"
  elapsed :: nat
  download :: "content option"

type_synonym driver = "nat \<Rightarrow> reply"

definition browser_step :: "driver \<Rightarrow> pystr \<Rightarrow> call \<Rightarrow> world \<Rightarrow> world" where
  "browser_step env download_directory c w =
     (let r = env (length (calls w));
          t = clock w + elapsed r;
          data = path_join download_directory (py ''data.csv'');
          fs = (case download r of
                  None \<Rightarrow> files w
                | Some saved \<Rightarrow>
                    if path_exists (files w) data \<or> \<not> isdir (files w) download_directory
                    then files w
                    else files w @ [(data, \<lparr>mtime = t, body = saved\<rparr>)])
      in w\<lparr>files := fs, clock := t, calls := calls w @ [c]\<rparr>)"

definition driver_call :: "driver \<Rightarrow> pystr \<Rightarrow> call \<Rightarrow> unit action" where
  "driver_call env download_directory c w =
     (case raises (env (length (calls w))) of
        None \<Rightarrow> (Inr (), browser_step env download_directory c w)
      | Some e \<Rightarrow> (Inl (Selenium e), browser_step env download_directory c w))"

text \<open>
  \<^verbatim>\<open>
  WebDriverWait(driver, 40).until(
      lambda d: os.path.exists(os.path.join(download_directory, 'data.csv')))
  \<close>
  The condition looks at the file system only, so the wait ends in a
  \<open>TimeoutException\<close> exactly when the file has not appeared.
\<close>

definition until_file_exists :: "driver \<Rightarrow> pystr \<Rightarrow> unit action" where
  "until_file_exists env download_directory w =
     (let w1 = browser_step env download_directory UntilFileExists w
      in if path_exists (files w1) (path_join download_directory (py ''data.csv''))
         then (Inr (), w1)
         else (Inl (Selenium TimeoutException), w1))"

text \<open>Statements in sequence: the first exception ends the sequence.\<close>

fun seq :: "unit action list \<Rightarrow> unit action" where
  "seq [] = ok ()"
| "seq (m # ms) = and_then m (\<lambda>u. seq ms)"

text \<open>
  The statements of \<open>download_and_process_data\<close> before its loop: the category tab and
  the business type when there is one, the location tab and the state, and the
  submission.
\<close>

definition select_query :: "driver \<Rightarrow> pystr \<Rightarrow> pystr \<Rightarrow> pystr option \<Rightarrow> unit action" where
  "select_query env download_directory state_name business_type =
     seq [if_business business_type
            (\<lambda>b. seq [driver_call env download_directory (UntilClickable CategoryTab),
                       driver_call env download_directory (Click CategoryTab),
                       sleep 2,
                       driver_call env download_directory (FindSelect NatureOfBusiness),
                       driver_call env download_directory (SelectByVisibleText NatureOfBusiness b),
                       sleep 2])
            (ok ()),
          driver_call env download_directory (UntilClickable LocationTab),
          driver_call env download_directory (Click LocationTab),
          sleep 2,
          driver_call env download_directory (FindSelect StateName),
          driver_call env download_directory (SelectByVisibleText StateName state_name),
          sleep 2,
          driver_call env download_directory (UntilClickable FrmSubmit),
          driver_call env download_directory (Click FrmSubmit)]"

text \<open>
  The body of the \<open>while True\<close> loop, up to its \<open>except\<close>:
  \<^verbatim>\<open>
      time.sleep(5)
      export_csv_link = WebDriverWait(driver, 30).until(EC.element_to_be_clickable(...))
      export_csv_link.click()
      WebDriverWait(driver, 40).until(lambda d: os.path.exists(...))
      rename_downloaded_file(download_directory, state_name, business_type, page_number)
      next_button = WebDriverWait(driver, 30).until(EC.element_to_be_clickable(...))
      driver.execute_script("arguments[0].scrollIntoView(true);", next_button)
      time.sleep(1)
      try:
          overlay = WebDriverWait(driver, 3).until(EC.visibility_of_element_located(...))
          overlay.click()
          time.sleep(1)
      except (TimeoutException, NoSuchElementException):
          pass
      driver.execute_script("arguments[0].click();", next_button)
      time.sleep(5)
      page_number += 1
      WebDriverWait(driver, 20).until(EC.staleness_of(next_button))
  \<close>
\<close>

definition export_page ::
  "platform \<Rightarrow> driver \<Rightarrow> pystr \<Rightarrow> pystr \<Rightarrow> pystr option \<Rightarrow> nat \<Rightarrow> unit action" where
  "export_page P env download_directory state_name business_type page_number =
     seq [sleep 5,
          driver_call env download_directory (UntilClickable ExportToCsv),
          driver_call env download_directory (Click ExportToCsv),
          until_file_exists env download_directory,
          and_then (rename_downloaded_file P download_directory state_name business_type page_number)
            (\<lambda>new_file_path. ok ()),
          driver_call env download_directory (UntilClickable ImgButNext),
          driver_call env download_directory (ScrollIntoView ImgButNext),
          sleep 1,
          try_except
            (seq [driver_call env download_directory (UntilVisible DropdownToggle),
                  driver_call env download_directory (Click DropdownToggle),
                  sleep 1])
            (\<lambda>e. if e = Selenium TimeoutException \<or> e = Selenium NoSuchElementException
                  then ok () else raise e),
          driver_call env download_directory (ScriptClick ImgButNext),
          sleep 5,
          driver_call env download_directory (UntilStale ImgButNext)]"

text \<open>
  The loop: an exception of the body is printed and ends it; otherwise the next page
  follows. Nothing bounds the number of pages, so the loop need not return: \<open>None\<close>
  is the run that goes on forever.
  \<^verbatim>\<open>
      page_number = 1
      while True:
          try:
              ...
          except Exception as e:
              safe_print(f"Navigation ended. Moving to next combination. Error: {e}")
              break
  \<close>
\<close>

partial_function (option) paginate ::
  "platform \<Rightarrow> driver \<Rightarrow> pystr \<Rightarrow> pystr \<Rightarrow> pystr option \<Rightarrow> nat \<Rightarrow> world \<Rightarrow> world option" where
  "paginate P env download_directory state_name business_type page_number w =
     (case export_page P env download_directory state_name business_type page_number w of
        (Inl e, w1) \<Rightarrow> Some (say (NavigationEnded e) w1)
      | (Inr u, w1) \<Rightarrow>
          paginate P env download_directory state_name business_type (Suc page_number) w1)"

declare paginate.simps [code]

text \<open>
  \<^verbatim>\<open>
  def download_and_process_data(driver, download_directory, state_name, business_type=None):
      try:
          ...   (select_query, then the loop)
          move_files_to_directory(download_directory, state_name, business_type)
          combine_csv_files(download_directory, state_name, business_type)
      except Exception as e:
          safe_print(f"Error in download_and_process_data: {e}")
          raise
  \<close>
\<close>

type_synonym process = "world \<Rightarrow> ((py_error + unit) \<times> world) option"

definition reraise :: "py_error \<Rightarrow> unit action" where
  "reraise e w = (Inl e, say (ErrorInDownload e) w)"

definition download_and_process_data ::
  "platform \<Rightarrow> driver \<Rightarrow> pystr \<Rightarrow> pystr \<Rightarrow> pystr option \<Rightarrow> process" where
  "download_and_process_data P env download_directory state_name business_type w =
     (case select_query env download_directory state_name business_type w of
        (Inl e, w1) \<Rightarrow> Some (reraise e w1)
      | (Inr u, w1) \<Rightarrow>
          (case paginate P env download_directory state_name business_type 1 w1 of
             None \<Rightarrow> None
           | Some w2 \<Rightarrow>
               Some (try_except
                       (seq [move_files_to_directory P download_directory state_name business_type,
                             combine_csv_files P download_directory state_name business_type])
                       reraise w2)))"

section \<open>The orchestrator\<close>

definition business_filtered_states :: "pystr list" where
  "business_filtered_states =
     map py [''Maharashtra'', ''NCT of Delhi'', ''Rajasthan'', ''Tamil Nadu'', ''Telangana'',
             ''Uttar Pradesh'', ''Gujarat'', ''Haryana'', ''Karnataka'', ''West Bengal'']"

definition other_states :: "pystr list" where
  "other_states =
     map py [''Andaman & Nicobar'', ''Manipur'', ''Meghalaya'', ''Mizoram'', ''Nagaland'', ''Odisha'',
             ''Puducherry'', ''Punjab'', ''Sikkim'', ''Tripura'', ''Uttarakhand'', ''Madhya Pradesh'',
             ''Lakshadweep'', ''Ladakh'', ''Andhra Pradesh'', ''Arunachal Pradesh'', ''Assam'',
             ''Bihar'', ''Chandigarh'', ''Chhattisgarh'', ''Dadra & Nagar Haveli'', ''Daman & Diu'',
             ''Goa'', ''Himachal Pradesh'', ''Jammu & Kashmir'', ''Jharkhand'', ''Kerala'']"

definition business_types :: "pystr list" where
  "business_types =
     map py [''Agriculture and Allied Activities'',
             ''Business Services'',
             ''Community, personal & Social Services'',
             ''Construction'',
             ''Electricity, Gas & Water companies'',
             ''Finance'',
             ''Insurance'',
             ''Manufacturing (Food stuffs)'',
             ''Manufacturing (Leather & products thereof)'',
             ''Manufacturing (Machinery & Equipments)'',
             ''Manufacturing (Metals & Chemicals, and products thereof)'',
             ''Manufacturing (Others)'',
             ''Manufacturing (Paper & Paper products, Publishing, printing and reproduction of recorded media)'',
             ''Manufacturing (Textiles)'',
             ''Manufacturing (Wood Products)'',
             ''Mining & Quarrying'',
             ''Real Estate and Renting'',
             ''Trading'',
             ''Transport, storage and Communications'']"

text \<open>
  The body of the \<open>try\<close> that \<open>main\<close> runs for one query, and the \<open>try\<close> with its
  \<open>except\<close>:
  \<^verbatim>\<open>
      try:
          driver.get("https://firstsource.cmie.com/kommon/bin/sr.php?kall=wadvsearch")
          time.sleep(2)
          download_and_process_data(driver, download_directory, state, business_type)
          safe_print(f"Completed processing {state} - {business_type}")
      except Exception as e:
          safe_print(f"Error processing {state} - {business_type}: {e}")
          continue
  \<close>
\<close>

definition run_query :: "platform \<Rightarrow> driver \<Rightarrow> pystr \<Rightarrow> pystr \<Rightarrow> pystr option \<Rightarrow> process" where
  "run_query P env download_directory state business_type w =
     (case seq [driver_call env download_directory Get, sleep 2] w of
        (Inl e, w1) \<Rightarrow> Some (Inl e, w1)
      | (Inr u, w1) \<Rightarrow>
          (case download_and_process_data P env download_directory state business_type w1 of
             None \<Rightarrow> None
           | Some (Inl e, w2) \<Rightarrow> Some (Inl e, w2)
           | Some (Inr v, w2) \<Rightarrow> Some (Inr (), say (Completed state business_type) w2)))"

definition guarded_query :: "platform \<Rightarrow> driver \<Rightarrow> pystr \<Rightarrow> pystr \<Rightarrow> pystr option \<Rightarrow> process" where
  "guarded_query P env download_directory state business_type w =
     (case run_query P env download_directory state business_type w of
        None \<Rightarrow> None
      | Some (Inl e, w1) \<Rightarrow> Some (Inr (), say (ErrorQuery state business_type e) w1)
      | Some (Inr u, w1) \<Rightarrow> Some (Inr (), w1))"

text \<open>A \<open>for\<close> loop: an exception that leaves an iteration leaves the loop.\<close>

fun for_each :: "('a \<Rightarrow> process) \<Rightarrow> 'a list \<Rightarrow> process" where
  "for_each f [] w = Some (Inr (), w)"
| "for_each f (x # xs) w =
     (case f x w of
        None \<Rightarrow> None
      | Some (Inl e, w1) \<Rightarrow> Some (Inl e, w1)
      | Some (Inr u, w1) \<Rightarrow> for_each f xs w1)"

text \<open>
  \<^verbatim>\<open>
      for state in business_filtered_states:
          safe_print(f"\nProcessing {state} with business type filtering...")
          for business_type in business_types:
              if state == "Maharashtra" and business_type == "Business Services":
                  safe_print("Skipping Business Services for Maharashtra...")
                  continue
              try: ... except Exception as e: ...
          safe_print(f"\nConsolidating files for {state}...")
          consolidate_state_files(download_directory, state)
      for state in other_states:
          safe_print(f"\nProcessing {state} without business type filtering...")
          try: ... except Exception as e: ...
      safe_print("\nData collection and consolidation completed for all states.")
  \<close>
\<close>

definition business_iteration :: "platform \<Rightarrow> driver \<Rightarrow> pystr \<Rightarrow> pystr \<Rightarrow> pystr \<Rightarrow> process" where
  "business_iteration P env download_directory state business_type w =
     (if state = py ''Maharashtra'' \<and> business_type = py ''Business Services''
      then Some (Inr (), say Skipping w)
      else guarded_query P env download_directory state (Some business_type) w)"

definition state_iteration :: "platform \<Rightarrow> driver \<Rightarrow> pystr \<Rightarrow> pystr \<Rightarrow> process" where
  "state_iteration P env download_directory state w =
     (case for_each (business_iteration P env download_directory state) business_types
             (say (ProcessingFiltered state) w) of
        None \<Rightarrow> None
      | Some (Inl e, w1) \<Rightarrow> Some (Inl e, w1)
      | Some (Inr u, w1) \<Rightarrow>
          Some (consolidate_state_files P download_directory state (say (Consolidating state) w1)))"

definition other_iteration :: "platform \<Rightarrow> driver \<Rightarrow> pystr \<Rightarrow> pystr \<Rightarrow> process" where
  "other_iteration P env download_directory state w =
     guarded_query P env download_directory state None (say (ProcessingUnfiltered state) w)"

definition all_queries :: "platform \<Rightarrow> driver \<Rightarrow> pystr \<Rightarrow> process" where
  "all_queries P env download_directory w =
     (case for_each (state_iteration P env download_directory) business_filtered_states w of
        None \<Rightarrow> None
      | Some (Inl e, w1) \<Rightarrow> Some (Inl e, w1)
      | Some (Inr u, w1) \<Rightarrow>
          (case for_each (other_iteration P env download_directory) other_states w1 of
             None \<Rightarrow> None
           | Some (Inl e, w2) \<Rightarrow> Some (Inl e, w2)
           | Some (Inr v, w2) \<Rightarrow> Some (Inr (), say AllCompleted w2)))"

text \<open>
  \<open>main\<close>: the page is opened and the operator logs in; then the queries, in a \<open>try\<close>
  whose \<open>except\<close> prints and whose \<open>finally\<close> prompts and quits the driver.
\<close>

definition main_directory :: pystr where
  "main_directory = py ''D:'' @ [92] @ py ''Downloads''"

definition main :: "platform \<Rightarrow> driver \<Rightarrow> process" where
  "main P env w =
     (case driver_call env main_directory Get w of
        (Inl e, w1) \<Rightarrow> Some (Inl e, w1)
      | (Inr u, w1) \<Rightarrow>
          (case all_queries P env main_directory (say Prompt w1) of
             None \<Rightarrow> None
           | Some (Inl e, w2) \<Rightarrow>
               Some (driver_call env main_directory Quit (say Prompt (say (MainError e) w2)))
           | Some (Inr v, w2) \<Rightarrow> Some (driver_call env main_directory Quit (say Prompt w2))))"


section \<open>What a merge reads\<close>

text \<open>
  The notions the statements below are written in: the rows a path contributes (none when
  reading it fails), the failure lines of a list of inputs, the lines state-consolidate
  prints for its inputs, the rows a folder contributes to state-consolidate, the inputs
  and the output of either merge, the name the renaming step gives the export of a page
  at the clock reading \<open>t\<close>, and the names it has printed.
\<close>

definition rows_of :: "filesystem \<Rightarrow> pystr \<Rightarrow> row list" where
  "rows_of fs p = (case read_csv fs p of Inl e \<Rightarrow> [] | Inr df \<Rightarrow> rows df)"



definition folder_rows :: "filesystem \<Rightarrow> pystr \<Rightarrow> row list" where
  "folder_rows fs folder =
     concat (map (rows_of fs) (glob fs (path_join folder (py ''*_combined.csv''))))"

definition combine_inputs :: "platform \<Rightarrow> pystr \<Rightarrow> pystr \<Rightarrow> pystr option \<Rightarrow> filesystem \<Rightarrow> pystr list" where
  "combine_inputs P download_directory state_name business_type fs =
     (case combine_layout P download_directory state_name business_type of
        (directory_path, file_pattern, output_filename) \<Rightarrow>
          glob fs (path_join directory_path file_pattern))"

definition combine_output :: "platform \<Rightarrow> pystr \<Rightarrow> pystr \<Rightarrow> pystr option \<Rightarrow> pystr" where
  "combine_output P download_directory state_name business_type =
     (case combine_layout P download_directory state_name business_type of
        (directory_path, file_pattern, output_filename) \<Rightarrow> path_join directory_path output_filename)"

definition consolidate_folders :: "platform \<Rightarrow> pystr \<Rightarrow> pystr \<Rightarrow> filesystem \<Rightarrow> pystr list" where
  "consolidate_folders P download_directory state_name fs =
     glob fs (path_join download_directory (format_filename P state_name @ py ''_*''))"

definition consolidate_output :: "platform \<Rightarrow> pystr \<Rightarrow> pystr \<Rightarrow> pystr" where
  "consolidate_output P download_directory state_name =
     path_join download_directory (format_filename P state_name @ py ''_consolidated.csv'')"


definition page_filename :: "platform \<Rightarrow> pystr \<Rightarrow> pystr option \<Rightarrow> nat \<Rightarrow> nat \<Rightarrow> pystr" where
  "page_filename P state_name business_type page_number t =
     if_business business_type
       (\<lambda>b. format_filename P state_name @ py ''_'' @ format_filename P b @ py ''_page_''
              @ str_nat page_number @ py ''.csv'')
       (format_filename P state_name @ py ''_'' @ strftime P t @ py ''.csv'')"

definition artifacts :: "line list \<Rightarrow> pystr list" where
  "artifacts ls = concat (map (\<lambda>l. case l of Renamed name \<Rightarrow> [name] | _ \<Rightarrow> []) ls)"

definition ascii_digit :: "nat \<Rightarrow> bool" where
  "ascii_digit c = (48 \<le> c \<and> c \<le> 57)"


section \<open>Notions for the session\<close>

text \<open>
  A download directory is plain when it is not empty and has no trailing separator. An
  effect bounds what a step can do to the state, whatever it returns: a quiet step lets
  the clock advance and prints no renaming; \<open>renames\<close> and \<open>exported\<close> describe the
  renaming step and one turn of the loop. \<open>stamped\<close> is the loop's invariant for a query
  without business type: the names printed since the clock reading \<open>c0\<close> are those of
  strictly increasing clock readings, none later than now.
\<close>

definition plain :: "pystr \<Rightarrow> bool" where
  "plain d = (d \<noteq> [] \<and> last d \<noteq> slash)"

definition effect :: "(world \<Rightarrow> world \<Rightarrow> bool) \<Rightarrow> 'a action \<Rightarrow> bool" where
  "effect R m = (\<forall>w r w1. m w = (r, w1) \<longrightarrow> R w w1)"

definition quiet :: "world \<Rightarrow> world \<Rightarrow> bool" where
  "quiet w w1 = (clock w \<le> clock w1 \<and> artifacts (printed w1) = artifacts (printed w))"

definition renames :: "platform \<Rightarrow> pystr \<Rightarrow> pystr option \<Rightarrow> nat \<Rightarrow> world \<Rightarrow> world \<Rightarrow> bool" where
  "renames P s bt page w w1 =
     (clock w1 = clock w
      \<and> (artifacts (printed w1) = artifacts (printed w)
         \<or> artifacts (printed w1) = artifacts (printed w) @ [page_filename P s bt page (clock w)]))"

definition exported :: "platform \<Rightarrow> pystr \<Rightarrow> pystr option \<Rightarrow> nat \<Rightarrow> nat \<Rightarrow> world \<Rightarrow> world \<Rightarrow> bool" where
  "exported P s bt page d w w1 =
     (clock w \<le> clock w1
      \<and> (artifacts (printed w1) = artifacts (printed w)
         \<or> (\<exists>t. clock w + d \<le> t \<and> t \<le> clock w1
               \<and> artifacts (printed w1) = artifacts (printed w) @ [page_filename P s bt page t])))"

definition stamp_name :: "platform \<Rightarrow> pystr \<Rightarrow> nat \<Rightarrow> pystr" where
  "stamp_name P state_name t = format_filename P state_name @ py ''_'' @ strftime P t @ py ''.csv''"

definition stamped :: "platform \<Rightarrow> pystr \<Rightarrow> nat \<Rightarrow> pystr list \<Rightarrow> world \<Rightarrow> bool" where
  "stamped P s c0 base w =
     (c0 \<le> clock w \<and>
      (\<exists>ts. artifacts (printed w) = base @ map (stamp_name P s) ts \<and> sorted_wrt (<) ts
            \<and> (\<forall>t \<in> set ts. c0 \<le> t \<and> t \<le> clock w)))"

definition keeps_stamped ::
  "nat \<Rightarrow> pystr list \<Rightarrow>
   (((((platform \<times> driver) \<times> pystr) \<times> pystr) \<times> pystr option) \<times> nat) \<times> world \<Rightarrow> world \<Rightarrow> bool" where
  "keeps_stamped c0 base x y =
     (case x of
        ((((((P, env), dl), s), bt), page), w) \<Rightarrow>
          bt = None \<longrightarrow> stamped P s c0 base w \<longrightarrow> stamped P s c0 base y \<and> clock w \<le> clock y)"

section \<open>Concrete inputs\<close>

text \<open>
  A platform that knows ASCII only, and small download directories \<open>D\<close> on which the
  statements are evaluated.
\<close>

definition ascii_platform :: platform where
  "ascii_platform =
     \<lparr>uni_alnum = (\<lambda>c. False), uni_decimal = (\<lambda>c. None), uni_space = (\<lambda>c. False),
      calendar = (\<lambda>d. (2024, 1, 1))\<rparr>"

definition cell :: "string \<Rightarrow> row" where
  "cell v = [(py ''c'', py v)]"

definition one_row :: "string \<Rightarrow> content" where
  "one_row v = Table \<lparr>columns = [py ''c''], rows = [cell v]\<rparr>"

definition header_only :: content where
  "header_only = Table \<lparr>columns = [py ''c''], rows = []\<rparr>"

definition dir_node :: node where
  "dir_node = \<lparr>mtime = 0, body = Directory\<rparr>"

definition world_of :: "filesystem \<Rightarrow> world" where
  "world_of fs = \<lparr>files = fs, clock = 10, calls = [], printed = []\<rparr>"


definition captures_fs :: filesystem where
  "captures_fs =
     [(py ''D'', dir_node), (py ''D/G'', dir_node),
      (py ''D/G/G_20240101000001.csv'', \<lparr>mtime = 1, body = one_row ''g1''\<rparr>),
      (py ''D/G/G_20240101000002.csv'', \<lparr>mtime = 2, body = one_row ''g2''\<rparr>)]"

definition header_fs :: filesystem where
  "header_fs =
     [(py ''D'', dir_node), (py ''D/S_B'', dir_node),
      (py ''D/S_B/S_B_page_1.csv'', \<lparr>mtime = 1, body = header_only\<rparr>),
      (py ''D/S_B/S_B_combined.csv'', \<lparr>mtime = 2, body = header_only\<rparr>)]"


definition odd_page_fs :: filesystem where
  "odd_page_fs =
     [(py ''D'', dir_node), (py ''D/S_B'', dir_node),
      (py ''D/S_B/S_B_page_1.csv'', \<lparr>mtime = 1, body = one_row ''r1''\<rparr>),
      (py ''D/S_B/S_B_page_1 (1).csv'', \<lparr>mtime = 2, body = one_row ''r2''\<rparr>)]"


section \<open>Sanitization\<close>

lemma format_filename_chars:
  "c \<in> set (format_filename P text) \<Longrightarrow> isalnum P c \<or> c = ord CHR ''_''"
  by (simp add: format_filename_def)

lemma replace1_absent: "old \<notin> set s \<Longrightarrow> replace1 old new s = s"
  by (induction s) (auto simp: replace1_def)

lemma format_filename_fixed:
  assumes "\<And>c. c \<in> set text \<Longrightarrow> isalnum P c \<or> c = ord CHR ''_''"
  shows "format_filename P text = text"
proof -
  have sp: "ord CHR '' '' \<notin> set text"
    using assms [of "ord CHR '' ''"] by (auto simp: isalnum_def)
  have am: "ord CHR ''&'' \<notin> set text"
    using assms [of "ord CHR ''&''"] by (auto simp: isalnum_def)
  have "filter (\<lambda>c. isalnum P c \<or> c = ord CHR ''_'') text = text"
    using assms by (simp add: filter_id_conv)
  with sp am show ?thesis
    by (simp add: format_filename_def replace1_absent)
qed

text \<open>
  C8. Sanitization is idempotent, \<open>sanitize (sanitize x) = sanitize x\<close> for every string
  \<open>x\<close>, and \<open>sanitize "Andaman & Nicobar" = "Andaman_and_Nicobar"\<close>.
\<close>

theorem format_filename_idempotent:
  "format_filename P (format_filename P x) = format_filename P x
   \<and> format_filename P (py ''Andaman & Nicobar'') = py ''Andaman_and_Nicobar''"
proof
  show "format_filename P (format_filename P x) = format_filename P x"
    by (rule format_filename_fixed) (rule format_filename_chars)
  show "format_filename P (py ''Andaman & Nicobar'') = py ''Andaman_and_Nicobar''"
    by (simp add: format_filename_def replace1_def py_def isalnum_def)
qed

section \<open>The loops of the merges\<close>

lemma files_say [simp]: "files (say l w) = files w"
  by (simp add: say_def)

lemma clock_say [simp]: "clock (say l w) = clock w"
  by (simp add: say_def)

lemma calls_say [simp]: "calls (say l w) = calls w"
  by (simp add: say_def)

lemma printed_say [simp]: "printed (say l w) = printed w @ [l]"
  by (simp add: say_def)

lemma read_each_files [simp]: "files (snd (read_each xs (df, w))) = files w"
  by (induction xs arbitrary: df w) (auto split: sum.splits)

lemma read_each_clock [simp]: "clock (snd (read_each xs (df, w))) = clock w"
  by (induction xs arbitrary: df w) (auto split: sum.splits)

lemma read_each_rows:
  "rows (fst (read_each xs (df, w))) = rows df @ concat (map (rows_of (files w)) xs)"
  by (induction xs arbitrary: df w) (auto simp: rows_of_def pd_concat_def split: sum.splits)


lemma read_combined_files [simp]: "files (snd (read_combined xs (df, w))) = files w"
  by (induction xs arbitrary: df w) (auto split: sum.splits)

lemma read_combined_clock [simp]: "clock (snd (read_combined xs (df, w))) = clock w"
  by (induction xs arbitrary: df w) (auto split: sum.splits)

lemma read_combined_rows:
  "rows (fst (read_combined xs (df, w))) = rows df @ concat (map (rows_of (files w)) xs)"
  by (induction xs arbitrary: df w) (auto simp: rows_of_def pd_concat_def split: sum.splits)


lemma read_folders_files [simp]: "files (snd (read_folders fds (df, w))) = files w"
proof (induction fds arbitrary: df w)
  case Nil
  show ?case by simp
next
  case (Cons f fds)
  obtain d1 w1 where r: "read_combined (glob (files w) (path_join f (py ''*_combined.csv''))) (df, say (ProcessingFolder f) w) = (d1, w1)"
    by (cases "read_combined (glob (files w) (path_join f (py ''*_combined.csv''))) (df, say (ProcessingFolder f) w)")
  have "files w1 = files w"
    using read_combined_files [of "glob (files w) (path_join f (py ''*_combined.csv''))" df "say (ProcessingFolder f) w"] r by simp
  then show ?case using Cons r by simp
qed

lemma read_folders_rows:
  "rows (fst (read_folders fds (df, w))) = rows df @ concat (map (folder_rows (files w)) fds)"
proof (induction fds arbitrary: df w)
  case Nil
  show ?case by simp
next
  case (Cons f fds)
  obtain d1 w1 where r: "read_combined (glob (files w) (path_join f (py ''*_combined.csv''))) (df, say (ProcessingFolder f) w) = (d1, w1)"
    by (cases "read_combined (glob (files w) (path_join f (py ''*_combined.csv''))) (df, say (ProcessingFolder f) w)")
  have f: "files w1 = files w"
    using read_combined_files [of "glob (files w) (path_join f (py ''*_combined.csv''))" df "say (ProcessingFolder f) w"] r by simp
  have d: "rows d1 = rows df @ folder_rows (files w) f"
    using read_combined_rows [of "glob (files w) (path_join f (py ''*_combined.csv''))" df "say (ProcessingFolder f) w"] r
    by (simp add: folder_rows_def)
  show ?case using Cons [of d1 w1] r f d by simp
qed

section \<open>The page number of a path\<close>

lemma split_from_Nil: "split_from sep cur [] = [cur]"
  by (simp add: split_from.simps)

lemma split_from_match:
  assumes "sep \<noteq> []" and "s \<noteq> []" and "take (length sep) s = sep"
  shows "split_from sep cur s = cur # split_from sep [] (drop (length sep) s)"
proof -
  obtain c cs where "s = c # cs" using assms(2) by (cases s) auto
  then show ?thesis using assms(1,3) by (subst split_from.simps) simp
qed

lemma split_from_skip:
  assumes "\<not> (sep \<noteq> [] \<and> take (length sep) (c # cs) = sep)"
  shows "split_from sep cur (c # cs) = split_from sep (cur @ [c]) cs"
  using assms by (subst split_from.simps) auto

lemma split_from_absent:
  "sep = h # t \<Longrightarrow> h \<notin> set s \<Longrightarrow> split_from sep cur s = [cur @ s]"
proof (induction s arbitrary: cur)
  case Nil
  show ?case by (simp add: split_from.simps)
next
  case (Cons c cs)
  have "take (length sep) (c # cs) \<noteq> sep"
  proof
    assume "take (length sep) (c # cs) = sep"
    then have "c = h" using Cons.prems(1) by simp
    then show False using Cons.prems(2) by simp
  qed
  then have "split_from sep cur (c # cs) = split_from sep (cur @ [c]) cs"
    by (subst split_from.simps) simp
  then show ?case using Cons by simp
qed

lemma split_from_first:
  "hd (split_from [c] cur s) = cur @ takeWhile (\<lambda>x. x \<noteq> c) s"
proof (induction s arbitrary: cur)
  case Nil
  show ?case by (simp add: split_from.simps)
next
  case (Cons x xs)
  show ?case
  proof (cases "x = c")
    case True
    then show ?thesis by (subst split_from.simps) simp
  next
    case False
    then have "split_from [c] cur (x # xs) = split_from [c] (cur @ [x]) xs"
      by (subst split_from.simps) simp
    then show ?thesis using Cons False by simp
  qed
qed

lemma split_from_nonempty: "split_from sep cur s \<noteq> []"
proof (induction "length s" arbitrary: cur s rule: less_induct)
  case less
  show ?case
  proof (cases s)
    case Nil
    then show ?thesis by (simp add: split_from.simps)
  next
    case (Cons c cs)
    show ?thesis
    proof (cases "sep \<noteq> [] \<and> take (length sep) s = sep")
      case True
      then show ?thesis using Cons by (subst split_from.simps) simp
    next
      case False
      then have "split_from sep cur s = split_from sep (cur @ [c]) cs"
        using Cons by (subst split_from.simps) auto
      then show ?thesis using less [of cs "cur @ [c]"] Cons by simp
    qed
  qed
qed

lemma split_from_last:
  assumes sep: "sep = h # t" and ht: "h \<notin> set t" and tail: "h \<notin> set tail"
  shows "last (split_from sep cur (pre @ sep @ tail)) = tail"
proof (induction "length pre" arbitrary: cur pre rule: less_induct)
  case less
  let ?s = "pre @ sep @ tail"
  have ne: "?s \<noteq> []" using sep by simp
  then obtain c cs where s: "?s = c # cs" by (cases ?s) auto
  show ?case
  proof (cases "take (length sep) ?s = sep")
    case True
    have step: "split_from sep cur ?s = cur # split_from sep [] (drop (length sep) ?s)"
      using True ne sep by (intro split_from_match) simp_all
    show ?thesis
    proof (cases "pre = []")
      case True
      then have "drop (length sep) ?s = tail" by simp
      then show ?thesis
        using step split_from_absent [OF sep tail, of "[]"] by simp
    next
      case False
      have long: "length sep \<le> length pre"
      proof (rule ccontr)
        assume "\<not> length sep \<le> length pre"
        then have lt: "length pre < length sep" by simp
        have pos: "0 < length pre" using False by simp
        have "?s ! length pre = h" using sep by (simp add: nth_append)
        moreover have "?s ! length pre = sep ! length pre"
          using True lt by (metis nth_take)
        moreover have "sep ! length pre \<in> set t"
          using sep lt pos by (cases "length pre") auto
        ultimately show False using ht by simp
      qed
      then have "take (length sep) pre = sep" using True by simp
      then have pre: "pre = sep @ drop (length sep) pre"
        by (metis append_take_drop_id)
      have "drop (length sep) ?s = drop (length sep) pre @ sep @ tail"
        using long by simp
      moreover have "length (drop (length sep) pre) < length pre"
        using long sep False by simp
      ultimately show ?thesis
        using step less [of "drop (length sep) pre" "[]"] split_from_nonempty by simp
    qed
  next
    case False
    have pne: "pre \<noteq> []"
    proof
      assume "pre = []"
      then have "take (length sep) ?s = sep" by simp
      then show False using False by simp
    qed
    then obtain p ps where p: "pre = p # ps" by (cases pre) auto
    have "split_from sep cur ?s = split_from sep (cur @ [p]) (ps @ sep @ tail)"
      using False p split_from_skip [of sep p "ps @ sep @ tail" cur] by simp
    then show ?thesis using less [of ps "cur @ [p]"] p by simp
  qed
qed


lemma str_nat_digits: "list_all ascii_digit (str_nat n)"
proof (induction n rule: str_nat.induct)
  case (1 n)
  show ?case
  proof (cases "n < 10")
    case True
    then show ?thesis by (subst str_nat.simps) (simp add: ascii_digit_def)
  next
    case False
    have "n mod 10 < 10" by simp
    then have "ascii_digit (48 + n mod 10)" unfolding ascii_digit_def by linarith
    then show ?thesis using False 1 by (subst str_nat.simps) simp
  qed
qed

lemma str_nat_nonempty: "str_nat n \<noteq> []"
  by (subst str_nat.simps) simp

lemma digit_value_ascii: "ascii_digit c \<Longrightarrow> digit_value P c = Some (c - 48)"
  by (simp add: digit_value_def ascii_digit_def)

lemma more_digits_ascii:
  "list_all ascii_digit ds \<Longrightarrow>
   more_digits P acc ds = Some (foldl (\<lambda>a c. 10 * a + (c - 48)) acc ds)"
proof (induction P acc ds rule: more_digits.induct)
  case (1 P acc)
  show ?case by simp
next
  case (2 P acc c)
  then show ?case by (simp add: digit_value_ascii)
next
  case (3 P acc c d ds)
  have c: "ascii_digit c" and rest: "list_all ascii_digit (d # ds)" using 3(3) by simp_all
  have ne: "c \<noteq> ord CHR ''_''" using c by (simp add: ascii_digit_def)
  show ?case using 3(2) [OF ne digit_value_ascii [OF c] rest] ne c
    by (simp add: digit_value_ascii)
qed

lemma digits_ascii:
  "ds \<noteq> [] \<Longrightarrow> list_all ascii_digit ds \<Longrightarrow>
   digits P ds = Some (foldl (\<lambda>a c. 10 * a + (c - 48)) 0 ds)"
  by (cases ds) (simp_all add: digits_def digit_value_ascii more_digits_ascii)

lemma foldl_str_nat: "foldl (\<lambda>a c. 10 * a + (c - 48)) 0 (str_nat n) = n"
proof (induction n rule: str_nat.induct)
  case (1 n)
  show ?case
  proof (cases "n < 10")
    case True
    then show ?thesis by (subst str_nat.simps) simp
  next
    case False
    then show ?thesis using 1 by (subst str_nat.simps) simp
  qed
qed

lemma not_space_digit: "ascii_digit c \<Longrightarrow> \<not> isspace P c"
  by (simp add: ascii_digit_def isspace_def)

lemma py_strip_digits:
  assumes "ds \<noteq> []" and "list_all ascii_digit ds"
  shows "py_strip P ds = ds"
proof -
  have h: "\<not> isspace P (hd ds)" using assms by (cases ds) (simp_all add: not_space_digit)
  have l: "\<not> isspace P (last ds)"
    using assms by (intro not_space_digit) (simp add: list_all_iff)
  have "dropWhile (isspace P) ds = ds" using h assms(1) by (cases ds) simp_all
  moreover have "dropWhile (isspace P) (rev ds) = rev ds"
    using l assms(1) by (cases "rev ds") (simp_all add: last_rev [symmetric] hd_rev)
  ultimately show ?thesis by (simp add: py_strip_def)
qed

lemma py_int_str_nat: "py_int P (str_nat n) = Some (int n)"
proof -
  let ?ds = "str_nat n"
  obtain c cs where ds: "?ds = c # cs" using str_nat_nonempty [of n] by (cases ?ds) auto
  have c: "ascii_digit c" using str_nat_digits [of n] ds by simp
  have sg: "c \<noteq> ord CHR ''-''" "c \<noteq> ord CHR ''+''" using c by (simp_all add: ascii_digit_def)
  have "digits P ?ds = Some n"
    using digits_ascii [OF str_nat_nonempty str_nat_digits, of P n] by (simp add: foldl_str_nat)
  then show ?thesis
    using py_strip_digits [OF str_nat_nonempty str_nat_digits, of P n] ds sg
    by (simp add: py_int_def)
qed

lemma page_key_of_page:
  "page_key P (pre @ py ''page_'' @ str_nat n @ py ''.csv'') = Some (int n)"
proof -
  let ?tail = "str_nat n @ py ''.csv''"
  have nd: "\<And>c. c \<in> set (str_nat n) \<Longrightarrow> ascii_digit c"
    using str_nat_digits [of n] by (simp add: list_all_iff)
  have nop: "ord CHR ''p'' \<notin> set ?tail"
    using nd [of "ord CHR ''p''"] by (auto simp: py_def ascii_digit_def)
  have "last (split_from (py ''page_'') [] (pre @ py ''page_'' @ ?tail)) = ?tail"
    by (rule split_from_last [where h = "ord CHR ''p''" and t = "py ''age_''"])
       (use nop in \<open>simp_all add: py_def\<close>)
  then have l: "last (py_split (py ''page_'') (pre @ py ''page_'' @ str_nat n @ py ''.csv'')) = ?tail"
    by (simp add: py_split_def)
  have nodot: "ord CHR ''.'' \<notin> set (str_nat n)"
    using nd [of "ord CHR ''.''"] by (auto simp: ascii_digit_def)
  have "takeWhile (\<lambda>x. x \<noteq> ord CHR ''.'') ?tail = str_nat n"
    using nodot by (simp add: py_def takeWhile_append)
  then have "hd (py_split (py ''.'') ?tail) = str_nat n"
    using split_from_first [of "ord CHR ''.''" "[]" ?tail] by (simp add: py_split_def py_def)
  then show ?thesis using l by (simp add: page_key_def py_int_str_nat)
qed

section \<open>Page-combine and state-consolidate\<close>

lemma those_map_Some: "those xs = Some ys \<Longrightarrow> xs = map Some ys"
  by (induction xs arbitrary: ys) (auto split: option.splits)



lemma py_sort_mset: "py_sort key r xs = Some ys \<Longrightarrow> mset ys = mset xs"
proof -
  assume a: "py_sort key r xs = Some ys"
  then obtain ks where ks: "those (map key xs) = Some ks"
    by (auto simp: py_sort_def split: option.splits)
  have len: "length ks = length xs"
    using those_map_Some [OF ks] by (metis length_map)
  have m: "mset (map snd (zip ks xs)) = mset xs" using len by simp
  have "mset (map snd (sort_key fst (zip ks xs))) = image_mset snd (mset (zip ks xs))"
    by simp
  moreover have "mset (map snd (rev (sort_key fst (rev (zip ks xs))))) = image_mset snd (mset (zip ks xs))"
    by simp
  moreover have "image_mset snd (mset (zip ks xs)) = mset xs"
    using m by simp
  ultimately show ?thesis using a ks
    by (auto simp: py_sort_def simp del: mset_map split: if_splits)
qed


lemma if_business_Some: "b \<noteq> [] \<Longrightarrow> if_business (Some b) yes no = yes b"
  by (simp add: if_business_def)

lemma if_business_None: "if_business None yes no = no"
  by (simp add: if_business_def)

lemma if_business_no: "b = None \<or> b = Some [] \<Longrightarrow> if_business b yes no = no"
  by (auto simp: if_business_def)

lemma combine_order_filtered:
  assumes "b \<noteq> []" and "combine_order P dl s (Some b) fs = Inr xs"
  shows "py_sort (page_key P) False (combine_inputs P dl s (Some b) fs) = Some xs"
  using assms
  by (auto simp: combine_order_def combine_inputs_def if_business_Some split: prod.splits option.splits)

lemma combine_order_unfiltered:
  assumes "combine_order P dl s None fs = Inr xs"
  shows "py_sort (getmtime fs) True (combine_inputs P dl s None fs) = Some xs"
  using assms
  by (auto simp: combine_order_def combine_inputs_def if_business_None split: prod.splits option.splits)

lemma combine_order_mset:
  assumes "combine_order P dl s b fs = Inr xs"
  shows "mset xs = mset (combine_inputs P dl s b fs)"
proof (cases "b = None \<or> b = Some []")
  case True
  have "py_sort (getmtime fs) True (combine_inputs P dl s b fs) = Some xs"
    using assms
    by (auto simp: combine_order_def combine_inputs_def if_business_no [OF True]
        split: prod.splits option.splits)
  then show ?thesis by (rule py_sort_mset)
next
  case False
  then obtain c where c: "b = Some c" "c \<noteq> []" by (cases b) auto
  show ?thesis using combine_order_filtered [OF c(2)] assms c py_sort_mset by blast
qed


lemma map_of_put_same [simp]: "map_of (put p n fs) p = Some n"
  by (induction fs) auto

lemma map_of_put_other [simp]: "q \<noteq> p \<Longrightarrow> map_of (put p n fs) q = map_of fs q"
  by (induction fs) auto


lemma rows_DataFrame [simp]: "rows DataFrame = []"
  by (simp add: DataFrame_def)

lemma df_empty_rows: "rows d = [] \<Longrightarrow> df_empty d"
  by (simp add: df_empty_def)

lemma combine_unfold:
  assumes "combine_order P dl s b (files w) = Inr xs"
    and "read_each xs (DataFrame, w) = (df, w1)"
  shows "combine_csv_files P dl s b w =
     (if \<not> df_empty df
      then (case to_csv (clock w) df (combine_output P dl s b) (files w) of
              Inl e \<Rightarrow> (Inl e, w1)
            | Inr fs \<Rightarrow> (Inr (), say (CreatedCombined (combine_output P dl s b)) (w1\<lparr>files := fs\<rparr>)))
      else (Inr (), say (NoDataToCombine (snd (snd (combine_layout P dl s b)))) w1))"
proof -
  have f: "files w1 = files w" and c: "clock w1 = clock w"
    using read_each_files [of xs DataFrame w] read_each_clock [of xs DataFrame w] assms(2)
    by simp_all
  obtain d pat out where l: "combine_layout P dl s b = (d, pat, out)"
    by (cases "combine_layout P dl s b") auto
  have out: "combine_output P dl s b = path_join d out"
    using l by (simp add: combine_output_def)
  show ?thesis
    unfolding out using assms f c l
    by (simp add: combine_csv_files_def Let_def)
qed

lemma combine_abort:
  "combine_order P dl s b (files w) = Inl e \<Longrightarrow> combine_csv_files P dl s b w = (Inl e, w)"
  by (simp add: combine_csv_files_def split: prod.splits)



lemma those_None: "None \<in> set xs \<Longrightarrow> those xs = None"
  by (induction xs) (auto split: option.splits)

lemma py_sort_raises: "x \<in> set xs \<Longrightarrow> key x = None \<Longrightarrow> py_sort key r xs = None"
proof -
  assume "x \<in> set xs" and "key x = None"
  then have "None \<in> set (map key xs)" by force
  then show ?thesis by (simp add: py_sort_def those_None)
qed

lemma combine_order_raises:
  assumes "b \<noteq> []" and "p \<in> set (combine_inputs P dl s (Some b) fs)" and "page_key P p = None"
  shows "combine_order P dl s (Some b) fs = Inl ValueError"
proof -
  have "py_sort (page_key P) False (combine_inputs P dl s (Some b) fs) = None"
    using assms(2,3) by (rule py_sort_raises)
  then show ?thesis
    using assms(1)
    by (simp add: combine_order_def combine_inputs_def if_business_Some split: prod.splits)
qed

lemma combine_keeps_files_when_empty:
  assumes "\<And>p. p \<in> set (combine_inputs P dl s b (files w)) \<Longrightarrow> rows_of (files w) p = []"
  shows "files (snd (combine_csv_files P dl s b w)) = files w"
proof (cases "combine_order P dl s b (files w)")
  case (Inl e)
  then show ?thesis by (simp add: combine_abort)
next
  case (Inr xs)
  obtain df w1 where r: "read_each xs (DataFrame, w) = (df, w1)"
    by (cases "read_each xs (DataFrame, w)")
  have "set xs = set (combine_inputs P dl s b (files w))"
    using combine_order_mset [OF Inr] by (rule mset_eq_setD)
  then have "concat (map (rows_of (files w)) xs) = []" using assms by simp
  then have "df_empty df"
    using read_each_rows [of xs DataFrame w] r by (simp add: df_empty_rows)
  moreover have "files w1 = files w" using read_each_files [of xs DataFrame w] r by simp
  ultimately show ?thesis using combine_unfold [OF Inr r] by simp
qed

lemma consolidate_keeps_files_when_empty:
  assumes "\<And>folder. folder \<in> set (consolidate_folders P dl s (files w)) \<Longrightarrow> folder_rows (files w) folder = []"
  shows "files (snd (consolidate_state_files P dl s w)) = files w"
proof -
  let ?fds = "consolidate_folders P dl s (files w)"
  let ?w1 = "say (FoundFolders (length ?fds) (format_filename P s)) w"
  obtain df w2 where r: "read_folders ?fds (DataFrame, ?w1) = (df, w2)"
    by (cases "read_folders ?fds (DataFrame, ?w1)")
  have "rows df = concat (map (folder_rows (files w)) ?fds)"
    using read_folders_rows [of ?fds DataFrame ?w1] r by simp
  then have e: "df_empty df" using assms by (simp add: df_empty_rows)
  have f: "files w2 = files w" using read_folders_files [of ?fds DataFrame ?w1] r by simp
  show ?thesis
    using r e f
    by (simp add: consolidate_state_files_def consolidate_folders_def Let_def)
qed

text \<open>
  C3. Empty-input guard: when no matched input contributes a row (there is no input, or
  every input reads as zero rows or fails), page-combine leaves the file system as it
  was, and so does state-consolidate: no file is written.
\<close>

theorem empty_input_guard:
  "((\<forall>p \<in> set (combine_inputs P dl s b (files w)). rows_of (files w) p = [])
      \<longrightarrow> files (snd (combine_csv_files P dl s b w)) = files w)
   \<and> ((\<forall>folder \<in> set (consolidate_folders P dl s (files w)). folder_rows (files w) folder = [])
      \<longrightarrow> files (snd (consolidate_state_files P dl s w)) = files w)"
  using combine_keeps_files_when_empty [of P dl s b w]
    consolidate_keeps_files_when_empty [of P dl s w]
  by blast


text \<open>
  C10. The sort key of page-combine parses the page number of every file the renaming
  step names; when the key of one matched file is not an integer, the \<open>ValueError\<close>
  leaves page-combine before a file is read: nothing is written and nothing printed.
\<close>

theorem page_key_guard:
  "page_key P (path_join d (format_filename P s @ py ''_'' @ format_filename P b @ py ''_page_''
       @ str_nat n @ py ''.csv'')) = Some (int n)
   \<and> (b \<noteq> [] \<longrightarrow> (\<exists>p \<in> set (combine_inputs P dl s (Some b) (files w)). page_key P p = None)
        \<longrightarrow> combine_csv_files P dl s (Some b) w = (Inl ValueError, w))"
proof
  let ?name = "format_filename P s @ py ''_'' @ format_filename P b @ py ''_page_'' @ str_nat n @ py ''.csv''"
  have "\<exists>pre. path_join d ?name = pre @ py ''page_'' @ str_nat n @ py ''.csv''"
  proof -
    have 1: "?name = (format_filename P s @ py ''_'' @ format_filename P b @ py ''_'') @ py ''page_'' @ str_nat n @ py ''.csv''"
      by (simp add: py_def)
    have "path_join d ?name = ?name \<or> path_join d ?name = d @ ?name \<or> path_join d ?name = d @ [slash] @ ?name"
      unfolding path_join_def by (simp only: split: if_splits) auto
    then show ?thesis
      unfolding 1 by (metis append_assoc)
  qed
  then show "page_key P (path_join d ?name) = Some (int n)"
    using page_key_of_page by metis
  show "b \<noteq> [] \<longrightarrow> (\<exists>p \<in> set (combine_inputs P dl s (Some b) (files w)). page_key P p = None)
        \<longrightarrow> combine_csv_files P dl s (Some b) w = (Inl ValueError, w)"
    using combine_order_raises [of b _ P dl s "files w"] combine_abort [of P dl s "Some b" w ValueError]
    by blast
qed

lemma read_folders_append:
  "read_folders (xs @ ys) (df, w) = read_folders ys (read_folders xs (df, w))"
proof (induction xs arbitrary: df w)
  case Nil
  show ?case by simp
next
  case (Cons f fds)
  obtain d1 w1 where r: "read_combined (glob (files w) (path_join f (py ''*_combined.csv''))) (df, say (ProcessingFolder f) w) = (d1, w1)"
    by (cases "read_combined (glob (files w) (path_join f (py ''*_combined.csv''))) (df, say (ProcessingFolder f) w)")
  show ?case using Cons [of d1 w1] r by simp
qed


section \<open>The export session and the orchestrator\<close>

lemma calls_browser_step [simp]: "calls (browser_step env dl c w) = calls w @ [c]"
  by (simp add: browser_step_def Let_def)

lemma printed_browser_step [simp]: "printed (browser_step env dl c w) = printed w"
  by (simp add: browser_step_def Let_def)

lemma clock_browser_step [simp]:
  "clock (browser_step env dl c w) = clock w + elapsed (env (length (calls w)))"
  by (simp add: browser_step_def Let_def)

lemma files_browser_step_none:
  "download (env (length (calls w))) = None \<Longrightarrow> files (browser_step env dl c w) = files w"
  by (simp add: browser_step_def Let_def)

lemma files_browser_step_saved:
  assumes "download (env (length (calls w))) = Some saved"
    and "\<not> path_exists (files w) (path_join dl (py ''data.csv''))" and "isdir (files w) dl"
  shows "files (browser_step env dl c w)
     = files w @ [(path_join dl (py ''data.csv''),
                   \<lparr>mtime = clock w + elapsed (env (length (calls w))), body = saved\<rparr>)]"
  using assms by (simp add: browser_step_def Let_def)

lemma seq_Cons_ok: "m w = (Inr (), w1) \<Longrightarrow> seq (m # ms) w = seq ms w1"
  by (simp add: and_then_def)

lemma seq_Cons_raise: "m w = (Inl e, w1) \<Longrightarrow> seq (m # ms) w = (Inl e, w1)"
  by (simp add: and_then_def)

lemma driver_call_ok:
  "raises (env (length (calls w))) = None \<Longrightarrow> driver_call env dl c w = (Inr (), browser_step env dl c w)"
  by (simp add: driver_call_def)

lemma driver_call_raise:
  "raises (env (length (calls w))) = Some e \<Longrightarrow>
   driver_call env dl c w = (Inl (Selenium e), browser_step env dl c w)"
  by (simp add: driver_call_def)

lemma calls_sleep [simp]: "calls (snd (sleep n w)) = calls w"
  by (simp add: sleep_def)

lemma sleep_eq: "sleep n w = (Inr (), w\<lparr>clock := clock w + n\<rparr>)"
  by (simp add: sleep_def)

text \<open>Characters of the names.\<close>

lemma slash_not_alnum: "\<not> isalnum P slash"
  by (simp add: isalnum_def)

lemma format_filename_no_slash: "slash \<notin> set (format_filename P s)"
  using format_filename_chars [of slash P s] by (auto simp: isalnum_def)

lemma str_nat_no_slash: "slash \<notin> set (str_nat n)"
  using str_nat_digits [of n] by (auto simp: list_all_iff ascii_digit_def)

lemma strftime_no_slash: "slash \<notin> set (strftime P t)"
  by (auto simp: strftime_def two_digits_def four_digits_def split: prod.splits)

lemma page_filename_no_slash: "slash \<notin> set (page_filename P s bt page t)"
proof (cases "bt = None \<or> bt = Some []")
  case True
  then have "page_filename P s bt page t = format_filename P s @ py ''_'' @ strftime P t @ py ''.csv''"
    by (auto simp: page_filename_def if_business_def)
  then show ?thesis
    using format_filename_no_slash [of P s] strftime_no_slash [of P t] by (simp add: py_def)
next
  case False
  then obtain b where "bt = Some b" "b \<noteq> []" by (cases bt) auto
  then have "page_filename P s bt page t
      = format_filename P s @ py ''_'' @ format_filename P b @ py ''_page_'' @ str_nat page @ py ''.csv''"
    by (simp add: page_filename_def if_business_def)
  then show ?thesis
    using format_filename_no_slash [of P s] format_filename_no_slash [of P b] str_nat_no_slash [of page]
    by (simp add: py_def)
qed

lemma page_filename_underscore: "ord CHR ''_'' \<in> set (page_filename P s bt page t)"
  by (auto simp: page_filename_def if_business_def py_def split: option.splits)

lemma page_filename_not_data: "page_filename P s bt page t \<noteq> py ''data.csv''"
proof
  assume "page_filename P s bt page t = py ''data.csv''"
  then have "ord CHR ''_'' \<in> set (py ''data.csv'')" using page_filename_underscore by metis
  then show False by (simp add: py_def)
qed

lemma page_filename_nonempty: "page_filename P s bt page t \<noteq> []"
  using page_filename_underscore [of P s bt page t] by auto

lemma path_join_plain:
  "plain d \<Longrightarrow> slash \<notin> set name \<Longrightarrow> name \<noteq> [] \<Longrightarrow> path_join d name = d @ slash # name"
  by (cases name) (auto simp: path_join_def plain_def)

lemma dirname_join:
  assumes "plain d" and "slash \<notin> set name" and "name \<noteq> []"
  shows "dirname (path_join d name) = d"
proof -
  have p: "path_join d name = d @ slash # name" using assms by (rule path_join_plain)
  have "dropWhile (\<lambda>c. c \<noteq> slash) (rev name @ slash # rev d) = slash # rev d"
    using assms(2) by (auto simp: dropWhile_append3)
  then have h: "rev (dropWhile (\<lambda>c. c \<noteq> slash) (rev (d @ slash # name))) = d @ [slash]"
    by simp
  have ne: "filter (\<lambda>c. c \<noteq> slash) (d @ [slash]) \<noteq> []"
  proof -
    have "last d \<in> set d" using assms(1) by (simp add: plain_def)
    moreover have "last d \<noteq> slash" using assms(1) by (simp add: plain_def)
    ultimately have "filter (\<lambda>c. c \<noteq> slash) d \<noteq> []"
      unfolding filter_empty_conv by blast
    then show ?thesis by simp
  qed
  have "dropWhile (\<lambda>c. c = slash) (rev d) = rev d"
    using assms(1) by (cases "rev d") (auto simp: plain_def last_rev [symmetric] hd_rev)
  then show ?thesis
    unfolding p dirname_def h using ne by (simp add: Let_def)
qed

lemma path_join_inject:
  "plain d \<Longrightarrow> slash \<notin> set a \<Longrightarrow> a \<noteq> [] \<Longrightarrow> slash \<notin> set b \<Longrightarrow> b \<noteq> [] \<Longrightarrow>
   path_join d a = path_join d b \<Longrightarrow> a = b"
  by (simp add: path_join_plain)

lemma data_simple: "slash \<notin> set (py ''data.csv'')" "py ''data.csv'' \<noteq> []"
  by (simp_all add: py_def)

lemma target_not_data:
  "plain dl \<Longrightarrow> path_join dl (py ''data.csv'') \<noteq> path_join dl (page_filename P s bt page t)"
  using path_join_inject [OF _ data_simple page_filename_no_slash page_filename_nonempty]
    page_filename_not_data
  by metis

lemma rename_unfold:
  "rename_downloaded_file P dl s bt page w =
     (if path_exists (files w) (path_join dl (py ''data.csv''))
      then (case os_rename (path_join dl (py ''data.csv''))
                   (path_join dl (page_filename P s bt page (clock w))) (files w) of
              Inl e \<Rightarrow> (Inl e, w)
            | Inr fs \<Rightarrow>
                (Inr (Some (path_join dl (page_filename P s bt page (clock w)))),
                 say (Renamed (page_filename P s bt page (clock w))) (w\<lparr>files := fs\<rparr>)))
      else (Inr None, say NoFileToRename w))"
  unfolding rename_downloaded_file_def page_filename_def Let_def by simp

lemma rename_ok:
  assumes "plain dl"
    and "map_of (files w) (path_join dl (py ''data.csv'')) = Some node"
    and "body node \<noteq> Directory"
    and "\<not> isdir (files w) (path_join dl (page_filename P s bt page (clock w)))"
    and "isdir (files w) dl"
  shows "rename_downloaded_file P dl s bt page w =
     (Inr (Some (path_join dl (page_filename P s bt page (clock w)))),
      say (Renamed (page_filename P s bt page (clock w)))
        (w\<lparr>files := put (path_join dl (page_filename P s bt page (clock w))) node
                        (filter (\<lambda>(q, m). q \<noteq> path_join dl (py ''data.csv'')) (files w))\<rparr>))"
proof -
  have d: "dirname (path_join dl (page_filename P s bt page (clock w))) = dl"
    using assms(1) page_filename_no_slash page_filename_nonempty by (rule dirname_join)
  have "os_rename (path_join dl (py ''data.csv'')) (path_join dl (page_filename P s bt page (clock w))) (files w)
      = Inr (put (path_join dl (page_filename P s bt page (clock w))) node
               (filter (\<lambda>(q, m). q \<noteq> path_join dl (py ''data.csv'')) (files w)))"
    using assms target_not_data [OF assms(1), of P s bt page "clock w"] d
    by (simp add: os_rename_def)
  then show ?thesis
    using assms(2) by (simp add: rename_unfold path_exists_def)
qed

lemma filter_absent:
  "map_of fs k = None \<Longrightarrow> filter (\<lambda>(q, m). q \<noteq> k) fs = fs"
  by (induction fs) (auto split: if_splits)

lemma map_of_append_new:
  "map_of fs k = None \<Longrightarrow> map_of (fs @ [(k, v)]) k = Some v"
  by (induction fs) (auto split: if_splits)

lemma map_of_append_other:
  "q \<noteq> k \<Longrightarrow> map_of (fs @ [(k, v)]) q = map_of fs q"
  by (induction fs) auto

lemma isdir_append_other:
  "q \<noteq> k \<Longrightarrow> isdir (fs @ [(k, v)]) q = isdir fs q"
  by (simp add: isdir_def map_of_append_other del: map_of_append)

text \<open>
  C6. Pagination termination: when the export of the first page succeeds (the export
  control is found and clicked, the file arrives during the wait and is renamed) and
  the wait for the next-page control then raises, the loop returns after exactly one
  export: one click on the export control, one renamed file, and the line that ends the
  navigation.
\<close>

theorem pagination_ends_after_one_export:
  assumes n: "n = length (calls w)"
    and dl: "plain dl" "isdir (files w) dl"
    and nodata: "\<not> path_exists (files w) (path_join dl (py ''data.csv''))"
    and found: "raises (env n) = None" "download (env n) = None"
    and clicked: "raises (env (n + 1)) = None" "download (env (n + 1)) = None"
    and saved: "download (env (n + 2)) = Some c" "c \<noteq> Directory"
    and free: "\<And>t. \<not> isdir (files w) (path_join dl (page_filename P s bt page t))"
    and nonext: "raises (env (n + 3)) = Some e"
    and t: "t = clock w + 5 + elapsed (env n) + elapsed (env (n + 1)) + elapsed (env (n + 2))"
  shows "\<exists>w'. paginate P env dl s bt page w = Some w'
           \<and> calls w' = calls w @ [UntilClickable ExportToCsv, Click ExportToCsv, UntilFileExists,
                                    UntilClickable ImgButNext]
           \<and> printed w' = printed w @ [Renamed (page_filename P s bt page t),
                                        NavigationEnded (Selenium e)]
           \<and> map_of (files w') (path_join dl (page_filename P s bt page t))
               = Some \<lparr>mtime = t, body = c\<rparr>"
proof -
  let ?data = "path_join dl (py ''data.csv'')"
  let ?name = "page_filename P s bt page t"
  let ?target = "path_join dl ?name"
  let ?node = "\<lparr>mtime = t, body = c\<rparr>"
  define w1 where "w1 = w\<lparr>clock := clock w + 5\<rparr>"
  define w2 where "w2 = browser_step env dl (UntilClickable ExportToCsv) w1"
  define w3 where "w3 = browser_step env dl (Click ExportToCsv) w2"
  define w4 where "w4 = browser_step env dl UntilFileExists w3"
  define w5 where "w5 = say (Renamed ?name) (w4\<lparr>files := put ?target ?node (files w)\<rparr>)"
  define w6 where "w6 = browser_step env dl (UntilClickable ImgButNext) w5"
  have c1: "length (calls w1) = n" by (simp add: w1_def n)
  have c2: "length (calls w2) = n + 1" by (simp add: w2_def c1)
  have c3: "length (calls w3) = n + 2" by (simp add: w3_def c2)
  have c4: "length (calls w4) = n + 3" by (simp add: w4_def c3)
  have c5: "length (calls w5) = n + 3" by (simp add: w5_def c4)
  have f1: "files w1 = files w" by (simp add: w1_def)
  have f2: "files w2 = files w"
    unfolding w2_def using found(2) c1 f1 by (simp add: files_browser_step_none)
  have f3: "files w3 = files w"
    unfolding w3_def using clicked(2) c2 f2 by (simp add: files_browser_step_none)
  have k3: "clock w3 = clock w + 5 + elapsed (env n) + elapsed (env (n + 1))"
    by (simp add: w3_def w2_def w1_def n)
  have k4: "clock w4 = t" by (simp add: w4_def k3 c3 t)
  have f4: "files w4 = files w @ [(?data, ?node)]"
    unfolding w4_def
    using files_browser_step_saved [of env w3 c dl UntilFileExists] saved(1) nodata dl(2) c3 f3 k3 t
    by simp
  have none: "map_of (files w) ?data = None" using nodata by (simp add: path_exists_def)
  have s1: "sleep 5 w = (Inr (), w1)" by (simp add: sleep_eq w1_def)
  have s2: "driver_call env dl (UntilClickable ExportToCsv) w1 = (Inr (), w2)"
    unfolding w2_def using found(1) c1 by (simp add: driver_call_ok)
  have s3: "driver_call env dl (Click ExportToCsv) w2 = (Inr (), w3)"
    unfolding w3_def using clicked(1) c2 by (simp add: driver_call_ok)
  have s4: "until_file_exists env dl w3 = (Inr (), w4)"
    using f4 none by (simp add: until_file_exists_def Let_def w4_def [symmetric] path_exists_def
        map_of_append_new del: map_of_append)
  have r: "rename_downloaded_file P dl s bt page w4 = (Inr (Some ?target), w5)"
  proof -
    have a: "map_of (files w4) ?data = Some ?node"
      using f4 none by (simp add: map_of_append_new del: map_of_append)
    have b: "\<not> isdir (files w4) (path_join dl (page_filename P s bt page (clock w4)))"
      using free [of t] target_not_data [OF dl(1), of P s bt page t] f4 k4
      by (simp add: isdir_append_other)
    have "dl \<noteq> ?data"
    proof
      assume "dl = ?data"
      then have "isdir (files w) ?data" using dl(2) by simp
      then show False using none by (simp add: isdir_def)
    qed
    then have d: "isdir (files w4) dl" using dl(2) f4 by (simp add: isdir_append_other)
    have "filter (\<lambda>(q, m). q \<noteq> ?data) (files w4) = files w"
      using f4 filter_absent [OF none] by simp
    then show ?thesis
      using rename_ok [OF dl(1) a _ b d] saved(2) k4 by (simp add: w5_def)
  qed
  have s5: "and_then (rename_downloaded_file P dl s bt page) (\<lambda>new_file_path. ok ()) w4 = (Inr (), w5)"
    using r by (simp add: and_then_def ok_def)
  have s6: "driver_call env dl (UntilClickable ImgButNext) w5 = (Inl (Selenium e), w6)"
    unfolding w6_def using nonext c5 by (simp add: driver_call_raise)
  have "export_page P env dl s bt page w = (Inl (Selenium e), w6)"
    unfolding export_page_def
    by (simp add: and_then_def ok_def s1 s2 s3 s4 r s6)
  then have p: "paginate P env dl s bt page w = Some (say (NavigationEnded (Selenium e)) w6)"
    by (subst paginate.simps) simp
  have "calls w6 = calls w @ [UntilClickable ExportToCsv, Click ExportToCsv, UntilFileExists,
                               UntilClickable ImgButNext]"
    by (simp add: w6_def w5_def w4_def w3_def w2_def w1_def)
  moreover have "printed w6 = printed w @ [Renamed ?name]"
    by (simp add: w6_def w5_def w4_def w3_def w2_def w1_def)
  moreover have "map_of (files w6) ?target = Some ?node"
  proof -
    have f5: "files w5 = put ?target ?node (files w)" by (simp add: w5_def)
    have "files w6 = files w5 \<or> (\<exists>v. files w6 = files w5 @ [(?data, v)])"
      by (auto simp: w6_def browser_step_def Let_def split: option.splits)
    then show ?thesis
      using f5 target_not_data [OF dl(1), of P s bt page t]
      by (auto simp: map_of_append_other simp del: map_of_append)
  qed
  ultimately show ?thesis using p by simp
qed

lemma effect_and_then:
  assumes "effect A m" and "\<And>x. effect B (f x)"
    and "\<And>w w1 w2. A w w1 \<Longrightarrow> B w1 w2 \<Longrightarrow> C w w2"
    and "\<And>w w1. A w w1 \<Longrightarrow> C w w1"
  shows "effect C (and_then m f)"
  using assms unfolding effect_def and_then_def
  by (auto split: prod.splits sum.splits) blast+

lemma effect_try_except:
  assumes "effect A m" and "\<And>e. effect B (h e)"
    and "\<And>w w1 w2. A w w1 \<Longrightarrow> B w1 w2 \<Longrightarrow> C w w2"
    and "\<And>w w1. A w w1 \<Longrightarrow> C w w1"
  shows "effect C (try_except m h)"
  using assms unfolding effect_def try_except_def
  by (auto split: prod.splits sum.splits) blast+

lemma quiet_refl: "quiet w w"
  by (simp add: quiet_def)

lemma quiet_trans: "quiet w w1 \<Longrightarrow> quiet w1 w2 \<Longrightarrow> quiet w w2"
  by (simp add: quiet_def)

lemma quiet_ok: "effect quiet (ok x)"
  by (simp add: effect_def ok_def quiet_def)

lemma quiet_raise: "effect quiet (raise e)"
  by (simp add: effect_def raise_def quiet_def)

lemma quiet_sleep: "effect quiet (sleep n)"
  by (auto simp: effect_def sleep_def quiet_def)

lemma quiet_driver_call: "effect quiet (driver_call env dl c)"
  by (auto simp: effect_def driver_call_def quiet_def split: option.splits)

lemma quiet_until_file_exists: "effect quiet (until_file_exists env dl)"
  by (auto simp: effect_def until_file_exists_def quiet_def Let_def split: if_splits)

lemma quiet_and_then:
  "effect quiet m \<Longrightarrow> (\<And>x. effect quiet (f x)) \<Longrightarrow> effect quiet (and_then m f)"
  by (rule effect_and_then [where A = quiet and B = quiet]) (auto intro: quiet_trans)

lemma quiet_seq: "(\<And>m. m \<in> set ms \<Longrightarrow> effect quiet m) \<Longrightarrow> effect quiet (seq ms)"
  by (induction ms) (auto intro: quiet_ok quiet_and_then)

lemma quiet_seq_Nil: "effect quiet (seq [])"
  by (simp add: quiet_ok)

lemma quiet_seq_Cons: "effect quiet m \<Longrightarrow> effect quiet (seq ms) \<Longrightarrow> effect quiet (seq (m # ms))"
  by (simp add: quiet_and_then)

lemma quiet_try_except:
  "effect quiet m \<Longrightarrow> (\<And>e. effect quiet (h e)) \<Longrightarrow> effect quiet (try_except m h)"
  by (rule effect_try_except [where A = quiet and B = quiet]) (auto intro: quiet_trans)

lemma artifacts_append [simp]: "artifacts (xs @ ys) = artifacts xs @ artifacts ys"
  by (simp add: artifacts_def)

lemma artifacts_Renamed [simp]: "artifacts [Renamed n] = [n]"
  by (simp add: artifacts_def)

lemma artifacts_NoFile [simp]: "artifacts [NoFileToRename] = []"
  by (simp add: artifacts_def)

lemma artifacts_NavigationEnded [simp]: "artifacts [NavigationEnded e] = []"
  by (simp add: artifacts_def)

lemma effect_rename: "effect (renames P s bt page) (rename_downloaded_file P dl s bt page)"
  by (auto simp: effect_def rename_unfold renames_def split: if_splits sum.splits)

lemma renames_exported: "renames P s bt page w w1 \<Longrightarrow> exported P s bt page 0 w w1"
  by (auto simp: renames_def exported_def)

lemma exported_quiet:
  "exported P s bt page 0 w w1 \<Longrightarrow> quiet w1 w2 \<Longrightarrow> exported P s bt page 0 w w2"
  unfolding exported_def quiet_def by (metis le_trans)

lemma quiet_exported:
  "quiet w w1 \<Longrightarrow> exported P s bt page 0 w1 w2 \<Longrightarrow> exported P s bt page 0 w w2"
  unfolding exported_def quiet_def by (metis add.right_neutral le_trans)

lemma quiet_is_exported: "quiet w w1 \<Longrightarrow> exported P s bt page d w w1"
  by (simp add: exported_def quiet_def)

lemma exported_then_quiet:
  "effect (exported P s bt page 0) m \<Longrightarrow> (\<And>x. effect quiet (f x)) \<Longrightarrow>
   effect (exported P s bt page 0) (and_then m f)"
  by (rule effect_and_then [where A = "exported P s bt page 0" and B = quiet])
     (auto intro: exported_quiet)

lemma quiet_then_exported:
  "effect quiet m \<Longrightarrow> (\<And>x. effect (exported P s bt page 0) (f x)) \<Longrightarrow>
   effect (exported P s bt page 0) (and_then m f)"
  by (rule effect_and_then [where A = quiet and B = "exported P s bt page 0"])
     (auto intro: quiet_exported quiet_is_exported)

lemma renames_then_quiet:
  "effect (renames P s bt page) m \<Longrightarrow> (\<And>x. effect quiet (f x)) \<Longrightarrow>
   effect (exported P s bt page 0) (and_then m f)"
  by (rule effect_and_then [where A = "renames P s bt page" and B = quiet])
     (auto intro: renames_exported exported_quiet)

lemma slept_then_exported:
  assumes "\<And>x. effect (exported P s bt page 0) (f x)"
  shows "effect (exported P s bt page d) (and_then (sleep d) f)"
proof (rule effect_and_then [where A = "\<lambda>w w1. clock w1 = clock w + d \<and> artifacts (printed w1) = artifacts (printed w)"
      and B = "exported P s bt page 0"])
  show "effect (\<lambda>w w1. clock w1 = clock w + d \<and> artifacts (printed w1) = artifacts (printed w)) (sleep d)"
    by (auto simp: effect_def sleep_def)
  show "effect (exported P s bt page 0) (f x)" for x by (rule assms)
  show "exported P s bt page d w w2"
    if "clock w1 = clock w + d \<and> artifacts (printed w1) = artifacts (printed w)"
      and "exported P s bt page 0 w1 w2" for w w1 w2
    using that unfolding exported_def by auto
  show "exported P s bt page d w w1"
    if "clock w1 = clock w + d \<and> artifacts (printed w1) = artifacts (printed w)" for w w1
    using that unfolding exported_def by auto
qed

lemma effect_export_page: "effect (exported P s bt page 5) (export_page P env dl s bt page)"
proof -
  let ?post = "seq [driver_call env dl (UntilClickable ImgButNext),
          driver_call env dl (ScrollIntoView ImgButNext),
          sleep 1,
          try_except
            (seq [driver_call env dl (UntilVisible DropdownToggle),
                  driver_call env dl (Click DropdownToggle),
                  sleep 1])
            (\<lambda>e. if e = Selenium TimeoutException \<or> e = Selenium NoSuchElementException
                  then ok () else raise e),
          driver_call env dl (ScriptClick ImgButNext),
          sleep 5,
          driver_call env dl (UntilStale ImgButNext)]"
  have handler: "effect quiet (if e = Selenium TimeoutException \<or> e = Selenium NoSuchElementException
                  then ok () else raise e)" for e
    by (simp add: quiet_ok quiet_raise)
  have post: "effect quiet ?post"
    by (intro quiet_seq_Cons quiet_seq_Nil quiet_driver_call quiet_sleep quiet_try_except handler)
  have "effect (exported P s bt page 5)
      (and_then (sleep 5) (\<lambda>u. and_then (driver_call env dl (UntilClickable ExportToCsv)) (\<lambda>u. and_then (driver_call env dl (Click ExportToCsv)) (\<lambda>u. and_then (until_file_exists env dl) (\<lambda>u. and_then (and_then (rename_downloaded_file P dl s bt page) (\<lambda>new_file_path. ok ())) (\<lambda>u. ?post))))))"
    by (intro slept_then_exported quiet_then_exported exported_then_quiet renames_then_quiet
        quiet_driver_call quiet_until_file_exists effect_rename quiet_ok post)
  then show ?thesis unfolding export_page_def seq.simps .
qed

lemma page_filename_None: "page_filename P s None page t = stamp_name P s t"
  by (simp add: page_filename_def if_business_def stamp_name_def)

lemma two_digits_inject: "two_digits a = two_digits b \<Longrightarrow> a = b"
proof -
  assume "two_digits a = two_digits b"
  then have "a div 10 = b div 10" "a mod 10 = b mod 10" by (simp_all add: two_digits_def)
  then show ?thesis by (metis div_mult_mod_eq)
qed

lemma strftime_same_day:
  assumes "t1 div 86400 = t2 div 86400" and "strftime P t1 = strftime P t2"
  shows "t1 = t2"
proof -
  obtain y m d where c: "calendar P (t2 div 86400) = (y, m, d)"
    by (cases "calendar P (t2 div 86400)") auto
  have "two_digits (t1 mod 86400 div 3600) @ two_digits (t1 mod 3600 div 60) @ two_digits (t1 mod 60)
      = two_digits (t2 mod 86400 div 3600) @ two_digits (t2 mod 3600 div 60) @ two_digits (t2 mod 60)"
    using assms c by (simp add: strftime_def)
  then have "two_digits (t1 mod 86400 div 3600) = two_digits (t2 mod 86400 div 3600)"
    and "two_digits (t1 mod 3600 div 60) = two_digits (t2 mod 3600 div 60)"
    and "two_digits (t1 mod 60) = two_digits (t2 mod 60)"
    by (simp_all add: two_digits_def)
  then have h: "t1 mod 86400 div 3600 = t2 mod 86400 div 3600"
    and m: "t1 mod 3600 div 60 = t2 mod 3600 div 60"
    and s: "t1 mod 60 = t2 mod 60"
    by (auto dest: two_digits_inject)
  have a: "t mod 3600 = 60 * (t mod 3600 div 60) + t mod 60" for t :: nat
  proof -
    have "t mod 3600 mod 60 = t mod 60" by (rule mod_mod_cancel) simp
    then show ?thesis using mult_div_mod_eq [of 60 "t mod 3600"] by (simp only:)
  qed
  have b: "t mod 86400 = 3600 * (t mod 86400 div 3600) + t mod 3600" for t :: nat
  proof -
    have "t mod 86400 mod 3600 = t mod 3600" by (rule mod_mod_cancel) simp
    then show ?thesis using mult_div_mod_eq [of 3600 "t mod 86400"] by (simp only:)
  qed
  have "t1 mod 3600 = 60 * (t1 mod 3600 div 60) + t1 mod 60" by (rule a)
  also have "\<dots> = 60 * (t2 mod 3600 div 60) + t2 mod 60" by (simp only: m s)
  also have "\<dots> = t2 mod 3600" by (rule a [symmetric])
  finally have c: "t1 mod 3600 = t2 mod 3600" .
  have "t1 mod 86400 = 3600 * (t1 mod 86400 div 3600) + t1 mod 3600" by (rule b)
  also have "\<dots> = 3600 * (t2 mod 86400 div 3600) + t2 mod 3600" by (simp only: h c)
  also have "\<dots> = t2 mod 86400" by (rule b [symmetric])
  finally have d: "t1 mod 86400 = t2 mod 86400" .
  have "t1 = 86400 * (t1 div 86400) + t1 mod 86400" by (rule mult_div_mod_eq [symmetric])
  also have "\<dots> = 86400 * (t2 div 86400) + t2 mod 86400" by (simp only: assms(1) d)
  also have "\<dots> = t2" by (rule mult_div_mod_eq)
  finally show ?thesis .
qed

lemma stamp_name_same_day:
  assumes "t1 div 86400 = t2 div 86400" and "stamp_name P s t1 = stamp_name P s t2"
  shows "t1 = t2"
proof -
  have "strftime P t1 = strftime P t2" using assms(2) by (simp add: stamp_name_def)
  with assms(1) show ?thesis by (rule strftime_same_day)
qed

lemma stamped_step:
  assumes "stamped P s c0 base w" and "exported P s None page 5 w w1"
  shows "stamped P s c0 base w1 \<and> clock w \<le> clock w1"
proof -
  obtain ts where ts: "artifacts (printed w) = base @ map (stamp_name P s) ts" "sorted_wrt (<) ts"
    "\<forall>t \<in> set ts. c0 \<le> t \<and> t \<le> clock w" and c0: "c0 \<le> clock w"
    using assms(1) by (auto simp: stamped_def)
  have le: "clock w \<le> clock w1" using assms(2) by (simp add: exported_def)
  consider "artifacts (printed w1) = artifacts (printed w)"
    | t where "clock w + 5 \<le> t" "t \<le> clock w1"
      "artifacts (printed w1) = artifacts (printed w) @ [stamp_name P s t]"
    using assms(2) by (auto simp: exported_def page_filename_None)
  then have "stamped P s c0 base w1"
  proof cases
    case 1
    then show ?thesis
      unfolding stamped_def using ts c0 le by (intro conjI exI [of _ ts]) auto
  next
    case 2
    have "sorted_wrt (<) (ts @ [t])"
      using ts(2,3) 2(1) by (auto simp: sorted_wrt_append)
    moreover have "artifacts (printed w1) = base @ map (stamp_name P s) (ts @ [t])"
      using 2(3) ts(1) by simp
    moreover have "\<forall>u \<in> set (ts @ [t]). c0 \<le> u \<and> u \<le> clock w1"
      using ts(3) 2(1,2) c0 le by auto
    ultimately show ?thesis
      unfolding stamped_def using c0 le by (intro conjI exI [of _ "ts @ [t]"]) auto
  qed
  then show ?thesis using le by simp
qed

lemma stamped_say_ended: "stamped P s c0 base w \<Longrightarrow> stamped P s c0 base (say (NavigationEnded e) w)"
  by (simp add: stamped_def)

lemma paginate_stamped:
  assumes "paginate P env dl s None page w = Some w'" and "stamped P s c0 base w"
  shows "stamped P s c0 base w' \<and> clock w \<le> clock w'"
proof -
  have "keeps_stamped c0 base ((((((P, env), dl), s), None), page), w) w'"
  proof (rule paginate.raw_induct [where Pa = "keeps_stamped c0 base", OF _ assms(1)])
    fix f P' env' dl' s' bt' page' w0 y
    assume IH: "\<And>env dl s bt page w b y. f env dl s bt page w b = Some y \<Longrightarrow>
        keeps_stamped c0 base ((((((env, dl), s), bt), page), w), b) y"
      and body: "(case export_page P' env' dl' s' bt' page' w0 of
          (Inl e, w1) \<Rightarrow> Some (say (NavigationEnded e) w1)
        | (Inr u, w1) \<Rightarrow> f P' env' dl' s' bt' (Suc page') w1) = Some y"
    show "keeps_stamped c0 base ((((((P', env'), dl'), s'), bt'), page'), w0) y"
      unfolding keeps_stamped_def
    proof (clarsimp)
      assume st: "stamped P' s' c0 base w0" and bt: "bt' = None"
      obtain r w1 where ex: "export_page P' env' dl' s' None page' w0 = (r, w1)"
        by (cases "export_page P' env' dl' s' None page' w0")
      have "exported P' s' None page' 5 w0 w1"
        using effect_export_page [of P' s' None page' env' dl'] ex by (simp add: effect_def)
      from stamped_step [OF st this] have s1: "stamped P' s' c0 base w1" and le: "clock w0 \<le> clock w1"
        by simp_all
      show "stamped P' s' c0 base y \<and> clock w0 \<le> clock y"
      proof (cases r)
        case (Inl e)
        then have "y = say (NavigationEnded e) w1" using body ex bt by simp
        then show ?thesis using s1 le by (simp add: stamped_say_ended)
      next
        case (Inr u)
        then have "f P' env' dl' s' None (Suc page') w1 = Some y" using body ex bt by simp
        from IH [OF this] s1 le show ?thesis by (simp add: keeps_stamped_def)
      qed
    qed
  qed
  then show ?thesis using assms(2) by (simp add: keeps_stamped_def)
qed

lemma stamp_name_simple: "slash \<notin> set (stamp_name P s t)" "stamp_name P s t \<noteq> []"
  using page_filename_no_slash [of P s None 0 t] page_filename_nonempty [of P s None 0 t]
  by (simp_all add: page_filename_None)

lemma increasing_distinct: "sorted_wrt (<) (ts :: nat list) \<Longrightarrow> distinct ts"
  by (induction ts) auto

text \<open>
  C9. For a query without business type every page's file is named
  \<open>{state}_{timestamp}.csv\<close>, the timestamp being the clock reading at the renaming in
  seconds; the files one run of the loop names within one day have distinct paths. (The
  loop sleeps before every export, so the clock readings of its renamings increase.)
\<close>

theorem capture_names_distinct:
  assumes "paginate P env dl s None page w = Some w'"
    and "clock w' div 86400 = clock w div 86400"
    and "plain dl"
  shows "\<exists>ts. artifacts (printed w')
               = artifacts (printed w)
                   @ map (\<lambda>t. format_filename P s @ py ''_'' @ strftime P t @ py ''.csv'') ts
            \<and> distinct (map (\<lambda>t. path_join dl (format_filename P s @ py ''_'' @ strftime P t
                                                  @ py ''.csv'')) ts)"
proof -
  have "stamped P s (clock w) (artifacts (printed w)) w"
    unfolding stamped_def by (intro conjI exI [of _ "[]"]) simp_all
  from paginate_stamped [OF assms(1) this]
  obtain ts where ts: "artifacts (printed w') = artifacts (printed w) @ map (stamp_name P s) ts"
    "sorted_wrt (<) ts" "\<forall>t \<in> set ts. clock w \<le> t \<and> t \<le> clock w'"
    by (auto simp: stamped_def)
  have d: "distinct ts" using ts(2) by (rule increasing_distinct)
  have day: "t div 86400 = clock w div 86400" if "t \<in> set ts" for t
  proof -
    have "clock w div 86400 \<le> t div 86400" "t div 86400 \<le> clock w' div 86400"
      using ts(3) that by (simp_all add: div_le_mono)
    then show ?thesis using assms(2) by simp
  qed
  have "inj_on (\<lambda>t. path_join dl (stamp_name P s t)) (set ts)"
  proof (rule inj_onI)
    fix a b
    assume a: "a \<in> set ts" and b: "b \<in> set ts"
      and eq: "path_join dl (stamp_name P s a) = path_join dl (stamp_name P s b)"
    have "stamp_name P s a = stamp_name P s b"
      using path_join_inject [OF assms(3) stamp_name_simple stamp_name_simple eq] .
    moreover have "a div 86400 = b div 86400" using day [OF a] day [OF b] by simp
    ultimately show "a = b" by (rule stamp_name_same_day [rotated])
  qed
  then have "distinct (map (\<lambda>t. path_join dl (stamp_name P s t)) ts)"
    using d by (simp add: distinct_map)
  then show ?thesis using ts(1) unfolding stamp_name_def by blast
qed

lemma guarded_query_catches: "guarded_query P env dl state bt w \<noteq> Some (Inl e, w1)"
  by (auto simp: guarded_query_def split: option.splits prod.splits sum.splits)

lemma business_iteration_catches: "business_iteration P env dl state b w \<noteq> Some (Inl e, w1)"
  by (simp add: business_iteration_def guarded_query_catches)

lemma other_iteration_catches: "other_iteration P env dl state w \<noteq> Some (Inl e, w1)"
  by (simp add: other_iteration_def guarded_query_catches)

lemma for_each_catches:
  assumes "\<And>x w e w1. f x w \<noteq> Some (Inl e, w1)"
  shows "for_each f xs w \<noteq> Some (Inl e, w1)"
proof (induction xs arbitrary: w)
  case Nil
  show ?case by simp
next
  case (Cons x xs)
  show ?case
  proof (cases "f x w")
    case None
    then show ?thesis by simp
  next
    case (Some r)
    obtain v w2 where r: "r = (v, w2)" by (cases r)
    show ?thesis
    proof (cases v)
      case (Inl e')
      then show ?thesis using assms [of x w e' w2] Some r by simp
    next
      case (Inr u)
      then show ?thesis using Cons [of w2] Some r by simp
    qed
  qed
qed

text \<open>
  C5. Per-query failure isolation: an exception raised anywhere in the \<open>try\<close> that
  \<open>main\<close> runs for one query is caught and printed, and the loop goes on with the next
  business type or the next state; no exception of a query leaves either loop.
\<close>

theorem query_failure_isolated:
  "(run_query P env dl state (Some b) w = Some (Inl e, w1)
      \<longrightarrow> \<not> (state = py ''Maharashtra'' \<and> b = py ''Business Services'')
      \<longrightarrow> for_each (business_iteration P env dl state) (b # bs) w
           = for_each (business_iteration P env dl state) bs (say (ErrorQuery state (Some b) e) w1))
   \<and> (run_query P env dl state None (say (ProcessingUnfiltered state) w) = Some (Inl e, w1)
      \<longrightarrow> for_each (other_iteration P env dl) (state # states) w
           = for_each (other_iteration P env dl) states (say (ErrorQuery state None e) w1))
   \<and> for_each (business_iteration P env dl state) bs w \<noteq> Some (Inl e, w1)
   \<and> for_each (other_iteration P env dl) states w \<noteq> Some (Inl e, w1)"
proof (intro conjI impI)
  assume "run_query P env dl state (Some b) w = Some (Inl e, w1)"
    and "\<not> (state = py ''Maharashtra'' \<and> b = py ''Business Services'')"
  then show "for_each (business_iteration P env dl state) (b # bs) w
           = for_each (business_iteration P env dl state) bs (say (ErrorQuery state (Some b) e) w1)"
    by (auto simp: business_iteration_def guarded_query_def)
next
  assume "run_query P env dl state None (say (ProcessingUnfiltered state) w) = Some (Inl e, w1)"
  then show "for_each (other_iteration P env dl) (state # states) w
           = for_each (other_iteration P env dl) states (say (ErrorQuery state None e) w1)"
    by (simp add: other_iteration_def guarded_query_def)
next
  show "for_each (business_iteration P env dl state) bs w \<noteq> Some (Inl e, w1)"
    by (rule for_each_catches) (rule business_iteration_catches)
next
  show "for_each (other_iteration P env dl) states w \<noteq> Some (Inl e, w1)"
    by (rule for_each_catches) (rule other_iteration_catches)
qed

section \<open>The statements on concrete inputs\<close>


theorem empty_input_guard_witness:
  "combine_inputs ascii_platform (py ''D'') (py ''S'') (Some (py ''B'')) header_fs
     = [py ''D/S_B/S_B_page_1.csv'']
   \<and> rows_of header_fs (py ''D/S_B/S_B_page_1.csv'') = []
   \<and> files (snd (combine_csv_files ascii_platform (py ''D'') (py ''S'') (Some (py ''B'')) (world_of header_fs)))
     = header_fs
   \<and> consolidate_folders ascii_platform (py ''D'') (py ''S'') header_fs = [py ''D/S_B'']
   \<and> folder_rows header_fs (py ''D/S_B'') = []
   \<and> files (snd (consolidate_state_files ascii_platform (py ''D'') (py ''S'') (world_of header_fs)))
     = header_fs"
proof -
  have i: "combine_inputs ascii_platform (py ''D'') (py ''S'') (Some (py ''B'')) header_fs
     = [py ''D/S_B/S_B_page_1.csv'']"
    by code_simp
  have r: "rows_of header_fs (py ''D/S_B/S_B_page_1.csv'') = []" by code_simp
  have c: "consolidate_folders ascii_platform (py ''D'') (py ''S'') header_fs = [py ''D/S_B'']"
    by code_simp
  have fr: "folder_rows header_fs (py ''D/S_B'') = []" by code_simp
  have f: "files (world_of header_fs) = header_fs" by (simp add: world_of_def)
  show ?thesis
    using empty_input_guard [of ascii_platform "py ''D''" "py ''S''" "Some (py ''B'')" "world_of header_fs"]
      i r c fr
    unfolding f by simp
qed


theorem page_key_guard_witness:
  "page_key ascii_platform (py ''D/S_B/S_B_page_1.csv'') = Some 1
   \<and> py ''D/S_B/S_B_page_1 (1).csv'' \<in> set (combine_inputs ascii_platform (py ''D'') (py ''S'') (Some (py ''B'')) odd_page_fs)
   \<and> page_key ascii_platform (py ''D/S_B/S_B_page_1 (1).csv'') = None
   \<and> combine_csv_files ascii_platform (py ''D'') (py ''S'') (Some (py ''B'')) (world_of odd_page_fs)
       = (Inl ValueError, world_of odd_page_fs)"
proof -
  have k1: "page_key ascii_platform (py ''D/S_B/S_B_page_1.csv'') = Some 1" by code_simp
  have m: "py ''D/S_B/S_B_page_1 (1).csv'' \<in> set (combine_inputs ascii_platform (py ''D'') (py ''S'') (Some (py ''B'')) odd_page_fs)"
    by code_simp
  have k: "page_key ascii_platform (py ''D/S_B/S_B_page_1 (1).csv'') = None" by code_simp
  have b: "py ''B'' \<noteq> []" by (simp add: py_def)
  have f: "files (world_of odd_page_fs) = odd_page_fs" by (simp add: world_of_def)
  show ?thesis
    using page_key_guard [of ascii_platform "py ''D''" "py ''S''" "py ''B''" 1 "py ''D''" "world_of odd_page_fs"]
      k1 m k b
    unfolding f by blast
qed


text \<open>
  C1. Page-combine for a query without business type is not idempotent: its pattern
  \<open>{state}_*.csv\<close> matches the \<open>{state}_combined.csv\<close> it has written, so a second run
  on unchanged page files reads the first run's output as one more input and writes every
  row twice.
\<close>

theorem combine_unfiltered_rerun:
  "rows_of (files (snd (combine_csv_files ascii_platform (py ''D'') (py ''G'') None (world_of captures_fs))))
     (py ''D/G/G_combined.csv'') = [cell ''g2'', cell ''g1'']
   \<and> rows_of (files (snd (combine_csv_files ascii_platform (py ''D'') (py ''G'') None
        (snd (combine_csv_files ascii_platform (py ''D'') (py ''G'') None (world_of captures_fs))))))
     (py ''D/G/G_combined.csv'') = [cell ''g2'', cell ''g1'', cell ''g2'', cell ''g1'']"
  by code_simp

end
